theory Spec2Isabelle
  imports Complex_Main "HOL-Library.Sublist" "HOL-Library.Log_Nat"
begin

section \<open>Strings and arrays of the host language\<close>

text \<open>
  A source string is a \<^typ>\<open>string\<close>: one \<^typ>\<open>char\<close> per code unit, which is exact
  for text whose code units lie below 256. The library functions of the host
  language that the source calls are written out with their documented behaviour.
\<close>

definition isSpace :: "char \<Rightarrow> bool" where
  \<comment> \<open>the class \<open>\s\<close> of a regular expression, on code units below 256\<close>
  "isSpace c = (c \<in> set [CHR 0x09, CHR 0x0A, CHR 0x0B, CHR 0x0C, CHR 0x0D, CHR 0x20, CHR 0xA0])"

definition isLowerAlnum :: "char \<Rightarrow> bool" where
  \<comment> \<open>the class \<open>[a-z0-9]\<close>\<close>
  "isLowerAlnum c =
     (let n = (of_char c :: nat) in (97 \<le> n \<and> n \<le> 122) \<or> (48 \<le> n \<and> n \<le> 57))"

definition toLowerChar :: "char \<Rightarrow> char" where
  "toLowerChar c =
     (let n = (of_char c :: nat)
      in if (65 \<le> n \<and> n \<le> 90) \<or> (192 \<le> n \<and> n \<le> 222 \<and> n \<noteq> 215)
         then char_of (n + 32) else c)"

definition toLowerCase :: "string \<Rightarrow> string" where
  "toLowerCase s = map toLowerChar s"

fun str_includes :: "'a list \<Rightarrow> 'a list \<Rightarrow> bool" where
  \<comment> \<open>\<open>s.includes(t)\<close>: \<open>t\<close> occurs in \<open>s\<close> as a contiguous run\<close>
  "str_includes [] t = (t = [])"
| "str_includes (c # s) t = (prefix t (c # s) \<or> str_includes s t)"

fun join :: "'a list \<Rightarrow> 'a list list \<Rightarrow> 'a list" where
  \<comment> \<open>\<open>xs.join(sep)\<close>\<close>
  "join sep [] = []"
| "join sep [x] = x"
| "join sep (x # y # ys) = x @ sep @ join sep (y # ys)"

definition substring0 :: "string \<Rightarrow> nat \<Rightarrow> string" where
  \<comment> \<open>\<open>s.substring(0, n)\<close> for a literal \<open>n\<close>\<close>
  "substring0 s n = take n s"

definition rel_index :: "int \<Rightarrow> int \<Rightarrow> int" where
  \<comment> \<open>how \<open>slice\<close> reads an index: a negative one counts from the end, both are clamped\<close>
  "rel_index len i = (if i < 0 then max (len + i) 0 else min i len)"

definition slice :: "'a list \<Rightarrow> int \<Rightarrow> int \<Rightarrow> 'a list" where
  \<comment> \<open>\<open>xs.slice(start, end)\<close>\<close>
  "slice xs start end =
     (let len = int (length xs); k = rel_index len start; final = rel_index len end
      in take (nat (final - k)) (drop (nat k) xs))"

definition slice_from :: "'a list \<Rightarrow> int \<Rightarrow> 'a list" where
  \<comment> \<open>\<open>xs.slice(start)\<close>\<close>
  "slice_from xs start = slice xs start (int (length xs))"

fun insert_by :: "('a \<Rightarrow> 'a \<Rightarrow> int) \<Rightarrow> 'a \<Rightarrow> 'a list \<Rightarrow> 'a list" where
  "insert_by cmp x [] = [x]"
| "insert_by cmp x (y # ys) = (if cmp x y \<le> 0 then x # y # ys else y # insert_by cmp x ys)"

definition sort_by :: "('a \<Rightarrow> 'a \<Rightarrow> int) \<Rightarrow> 'a list \<Rightarrow> 'a list" where
  \<comment> \<open>\<open>xs.sort(cmp)\<close>, which is stable: an element goes before the first one that
      the comparator does not put ahead of it, and the elements are inserted last to first\<close>
  "sort_by cmp xs = foldr (insert_by cmp) xs []"

function split_ws :: "string \<Rightarrow> string list" where
  \<comment> \<open>\<open>s.split(/\s+/)\<close>: the pieces between the maximal runs of white space; a run at
      either end leaves an empty piece there, and the empty string gives one empty piece\<close>
  "split_ws s =
     (let piece = takeWhile (\<lambda>c. \<not> isSpace c) s; rest = dropWhile (\<lambda>c. \<not> isSpace c) s
      in if rest = [] then [piece] else piece # split_ws (dropWhile isSpace rest))"
  by pat_completeness auto
termination
proof (relation "measure length")
  show "wf (measure length)" by simp
next
  fix s :: string and piece rest :: string
  assume r: "rest = dropWhile (\<lambda>c. \<not> isSpace c) s" and ne: "rest \<noteq> []"
  from ne obtain c cs where rc: "rest = c # cs" by (cases rest) auto
  have "\<not> \<not> isSpace (hd rest)"
    unfolding r by (rule hd_dropWhile) (use ne r in simp)
  then have "isSpace c" using rc by simp
  then have "dropWhile isSpace rest = dropWhile isSpace cs" using rc by simp
  then have "length (dropWhile isSpace rest) \<le> length cs"
    by (simp add: length_dropWhile_le)
  also have "length cs < length rest" using rc by simp
  also have "length rest \<le> length s" unfolding r by (rule length_dropWhile_le)
  finally show "(dropWhile isSpace rest, s) \<in> measure length" by simp
qed

declare split_ws.simps [simp del]

section \<open>The knowledge base\<close>

record Article =
  article_id :: string
  article_title :: string
  article_category :: string
  article_slug :: string
  article_keywords :: "string list"
  article_sections :: "(string \<times> string) list"
  article_chunks :: "string list"
  article_fullContent :: string

record Policy =
  policy_id :: string
  policy_name :: string
  policy_insurerName :: string
  policy_insurerId :: string
  policy_category :: string
  policy_description :: string
  policy_summary :: string
  policy_keywords :: "string list"

record Insurer =
  insurer_id :: string
  insurer_name :: string
  insurer_shortName :: string
  insurer_type :: string
  insurer_renewalLink :: string

record ClaimsGuide =
  guide_id :: string
  guide_title :: string
  guide_category :: string
  guide_content :: string
  guide_keywords :: "string list"

record KnowledgeBase =
  articles :: "Article list"
  policies :: "Policy list"
  insurers :: "Insurer list"
  claimsGuides :: "ClaimsGuide list"

subsection \<open>Search helpers\<close>

definition tokenize :: "string \<Rightarrow> string list" where
  "tokenize text =
     filter (\<lambda>t. length t > 2)
       (split_ws (map (\<lambda>c. if isLowerAlnum c \<or> isSpace c then c else CHR 0x20)
          (toLowerCase text)))"

definition scoreMatch :: "string list \<Rightarrow> string \<Rightarrow> string list \<Rightarrow> int" where
  "scoreMatch itemKeywords itemText queryTokens =
     (let lowerText = toLowerCase itemText
      in foldl (\<lambda>score token.
           let score = (if list_ex (\<lambda>kw. str_includes kw token \<or> str_includes token kw) itemKeywords
                        then score + 3 else score)
           in if str_includes lowerText token then score + 1 else score)
         0 queryTokens)"

subsection \<open>Public search functions\<close>

text \<open>
  The knowledge base is the module-level constant \<open>kb\<close> of the source and is passed
  explicitly. An optional argument is an \<^typ>\<open>'a option\<close>; \<open>if (category)\<close> is false
  for a missing argument and for the empty string. \<open>maxResults\<close> is a number of the
  source: an \<^typ>\<open>int\<close>, read by \<open>slice\<close>.
\<close>

definition searchArticles :: "KnowledgeBase \<Rightarrow> string \<Rightarrow> string option \<Rightarrow> int \<Rightarrow> Article list" where
  "searchArticles kb query category maxResults =
     (let tokens = tokenize query;
          arts = (case category of
                    None \<Rightarrow> articles kb
                  | Some c \<Rightarrow> if c \<noteq> [] then filter (\<lambda>a. article_category a = c) (articles kb)
                             else articles kb);
          scored = map (\<lambda>article.
                     (article,
                      scoreMatch (article_keywords article)
                        (article_title article @ '' '' @
                           substring0 (join '' '' (article_chunks article)) 500)
                        tokens)) arts
      in map fst
           (slice (sort_by (\<lambda>a b. snd b - snd a) (filter (\<lambda>s. snd s > 0) scored)) 0 maxResults))"

definition searchPolicies ::
  "KnowledgeBase \<Rightarrow> string \<Rightarrow> string option \<Rightarrow> string option \<Rightarrow> int \<Rightarrow> Policy list" where
  "searchPolicies kb query category insurerName maxResults =
     (let tokens = tokenize query;
          pols = (case category of
                    None \<Rightarrow> policies kb
                  | Some c \<Rightarrow> if c \<noteq> [] then filter (\<lambda>p. policy_category p = c) (policies kb)
                             else policies kb);
          pols = (case insurerName of
                    None \<Rightarrow> pols
                  | Some i \<Rightarrow>
                      if i \<noteq> [] then
                        (let lowerInsurer = toLowerCase i
                         in filter (\<lambda>p. str_includes (toLowerCase (policy_insurerName p)) lowerInsurer \<or>
                                        str_includes (toLowerCase (policy_insurerId p)) lowerInsurer) pols)
                      else pols);
          scored = map (\<lambda>policy.
                     (policy,
                      scoreMatch (policy_keywords policy)
                        (policy_name policy @ '' '' @ policy_summary policy) tokens)) pols
      in map fst
           (slice (sort_by (\<lambda>a b. snd b - snd a) (filter (\<lambda>s. snd s > 0) scored)) 0 maxResults))"

definition getPolicyById :: "KnowledgeBase \<Rightarrow> string \<Rightarrow> Policy option" where
  "getPolicyById kb policyId = find (\<lambda>p. policy_id p = policyId) (policies kb)"

definition getPoliciesByInsurer :: "KnowledgeBase \<Rightarrow> string \<Rightarrow> Policy list" where
  "getPoliciesByInsurer kb insurerName =
     (let lower = toLowerCase insurerName
      in filter (\<lambda>p. str_includes (toLowerCase (policy_insurerName p)) lower \<or>
                     str_includes (toLowerCase (policy_insurerId p)) lower) (policies kb))"

definition comparePolicies :: "KnowledgeBase \<Rightarrow> string list \<Rightarrow> Policy list" where
  "comparePolicies kb policyIds =
     List.map_filter
       (\<lambda>i. find (\<lambda>p. policy_id p = i \<or>
                       str_includes (toLowerCase (policy_name p)) (toLowerCase i)) (policies kb))
       policyIds"

definition searchClaimsGuides :: "KnowledgeBase \<Rightarrow> string \<Rightarrow> string option \<Rightarrow> ClaimsGuide list" where
  "searchClaimsGuides kb query category =
     (let tokens = tokenize query;
          guides = (case category of
                      None \<Rightarrow> claimsGuides kb
                    | Some c \<Rightarrow> if c \<noteq> [] then filter (\<lambda>g. guide_category g = c) (claimsGuides kb)
                               else claimsGuides kb);
          scored = map (\<lambda>guide.
                     (guide,
                      scoreMatch (guide_keywords guide)
                        (guide_title guide @ '' '' @ substring0 (guide_content guide) 500)
                        tokens)) guides
      in map fst
           (slice (sort_by (\<lambda>a b. snd b - snd a) (filter (\<lambda>s. snd s > 0) scored)) 0 3))"

definition getInsurer :: "KnowledgeBase \<Rightarrow> string \<Rightarrow> Insurer option" where
  "getInsurer kb name =
     (let lower = toLowerCase name
      in find (\<lambda>i. str_includes (toLowerCase (insurer_name i)) lower \<or>
                   str_includes (toLowerCase (insurer_shortName i)) lower \<or>
                   str_includes (toLowerCase (insurer_id i)) lower) (insurers kb))"

definition listInsurers :: "KnowledgeBase \<Rightarrow> string option \<Rightarrow> Insurer list" where
  "listInsurers kb type =
     (case type of
        None \<Rightarrow> insurers kb
      | Some t \<Rightarrow> if t \<noteq> [] then filter (\<lambda>i. insurer_type i = t) (insurers kb) else insurers kb)"

definition getAllPolicies :: "KnowledgeBase \<Rightarrow> Policy list" where
  "getAllPolicies kb = policies kb"

subsection \<open>Context builder\<close>

definition NL :: string where
  \<comment> \<open>the line feed written \<open>\n\<close> in the source\<close>
  "NL = [CHR 0x0A]"

definition buildContext :: "KnowledgeBase \<Rightarrow> string \<Rightarrow> string" where
  \<comment> \<open>\<open>parts.push(x)\<close> is \<open>parts @ [x]\<close>; each \<open>for\<close> loop is a fold over its hits\<close>
  "buildContext kb query =
     (let arts = searchArticles kb query None 2;
          pols = searchPolicies kb query None None 3;
          claims = searchClaimsGuides kb query None;
          parts = [];
          parts =
            (if length arts > 0 then
               foldl (\<lambda>parts article.
                        let relevantChunks = join (NL @ NL) (slice (article_chunks article) 0 2)
                        in parts @ [NL @ ''--- '' @ article_title article @ '' ('' @
                                    article_category article @ '') ---'' @ NL @ relevantChunks])
                 (parts @ [''=== RELEVANT ARTICLES ==='']) arts
             else parts);
          parts =
            (if length pols > 0 then
               foldl (\<lambda>parts policy.
                        parts @ [NL @ ''--- '' @ policy_name policy @ '' by '' @
                                 policy_insurerName policy @ '' ---'' @ NL @ policy_summary policy])
                 (parts @ [NL @ ''=== RELEVANT POLICIES ==='']) pols
             else parts);
          parts =
            (if length claims > 0 then
               foldl (\<lambda>parts guide.
                        parts @ [NL @ ''--- '' @ guide_title guide @ '' ---'' @ NL @
                                 substring0 (guide_content guide) 1500])
                 (parts @ [NL @ ''=== CLAIMS GUIDANCE ==='']) claims
             else parts)
      in join NL parts)"

section \<open>Numbers\<close>

text \<open>
  A number of the source is a binary64 floating point number: \<open>NaN\<close>, an infinity, or a
  finite value, kept as the rational it denotes. The two zeros are one value: nothing
  the source computes tells them apart. Every arithmetic operation gives the exact
  result rounded to the nearest binary64 number, ties to the one with the even last
  bit; a result that rounds to \<open>2\<^sup>1\<^sup>0\<^sup>2\<^sup>4\<close> or beyond is infinite.
\<close>

datatype number = NaN | PosInfinity | NegInfinity | Fin rat

definition pow2 :: "int \<Rightarrow> rat" where
  "pow2 e = (if 0 \<le> e then 2 ^ nat e else 1 / 2 ^ nat (- e))"

definition ilog2 :: "rat \<Rightarrow> int" where
  \<comment> \<open>for \<open>x > 0\<close>, the exponent \<open>e\<close> with \<open>2\<^sup>e \<le> x < 2\<^sup>e\<^sup>+\<^sup>1\<close>\<close>
  "ilog2 x = (if 1 \<le> x then bitlen \<lfloor>x\<rfloor> - 1 else - bitlen (\<lceil>1 / x\<rceil> - 1))"

definition round_half_even :: "rat \<Rightarrow> int" where
  "round_half_even x =
     (let f = \<lfloor>x\<rfloor>; r = x - rat_of_int f
      in if r < 1 / 2 then f else if 1 / 2 < r then f + 1 else if even f then f else f + 1)"

definition infinity_of :: "rat \<Rightarrow> number" where
  "infinity_of x = (if 0 < x then PosInfinity else NegInfinity)"

definition round64 :: "rat \<Rightarrow> number" where
  \<comment> \<open>53 significant bits for exponents from \<open>-1022\<close> to \<open>1023\<close>, multiples of \<open>2\<^sup>-\<^sup>1\<^sup>0\<^sup>7\<^sup>4\<close>
      below \<open>2\<^sup>-\<^sup>1\<^sup>0\<^sup>2\<^sup>2\<close>; \<open>m\<close> is the significand as an integer\<close>
  "round64 x =
     (if x = 0 then Fin 0
      else
        (let e = max (ilog2 \<bar>x\<bar>) (- 1022)
         in if 1024 \<le> e then infinity_of x
            else
              (let m = round_half_even (\<bar>x\<bar> / pow2 (e - 52))
               in if e = 1023 \<and> m = 2 ^ 53 then infinity_of x
                  else Fin (sgn x * pow2 (e - 52) * rat_of_int m))))"

definition lit :: "rat \<Rightarrow> number" where
  \<comment> \<open>the number that a decimal literal denotes\<close>
  "lit x = round64 x"

fun signum :: "number \<Rightarrow> rat" where
  "signum NaN = 0"
| "signum PosInfinity = 1"
| "signum NegInfinity = - 1"
| "signum (Fin a) = sgn a"

fun fneg :: "number \<Rightarrow> number" where
  "fneg NaN = NaN"
| "fneg PosInfinity = NegInfinity"
| "fneg NegInfinity = PosInfinity"
| "fneg (Fin a) = Fin (- a)"

fun fadd :: "number \<Rightarrow> number \<Rightarrow> number" where
  "fadd (Fin a) (Fin b) = round64 (a + b)"
| "fadd NaN y = NaN"
| "fadd x NaN = NaN"
| "fadd PosInfinity NegInfinity = NaN"
| "fadd NegInfinity PosInfinity = NaN"
| "fadd PosInfinity y = PosInfinity"
| "fadd NegInfinity y = NegInfinity"
| "fadd x PosInfinity = PosInfinity"
| "fadd x NegInfinity = NegInfinity"

definition fsub :: "number \<Rightarrow> number \<Rightarrow> number" where
  "fsub x y = fadd x (fneg y)"

fun fmul :: "number \<Rightarrow> number \<Rightarrow> number" where
  "fmul (Fin a) (Fin b) = round64 (a * b)"
| "fmul NaN y = NaN"
| "fmul x NaN = NaN"
| "fmul x y = (if signum x * signum y = 0 then NaN else infinity_of (signum x * signum y))"

fun fdiv :: "number \<Rightarrow> number \<Rightarrow> number" where
  \<comment> \<open>a zero divisor counts as the positive zero\<close>
  "fdiv (Fin a) (Fin b) =
     (if b = 0 then (if a = 0 then NaN else infinity_of a) else round64 (a / b))"
| "fdiv NaN y = NaN"
| "fdiv x NaN = NaN"
| "fdiv (Fin a) y = Fin 0"
| "fdiv x (Fin b) = infinity_of (if b < 0 then - signum x else signum x)"
| "fdiv x y = NaN"

fun num_lt :: "number \<Rightarrow> number \<Rightarrow> bool" where
  \<comment> \<open>\<open>x < y\<close>: false when either side is \<open>NaN\<close>\<close>
  "num_lt (Fin a) (Fin b) = (a < b)"
| "num_lt NaN y = False"
| "num_lt x NaN = False"
| "num_lt x NegInfinity = False"
| "num_lt PosInfinity y = False"
| "num_lt x y = True"

definition num_le :: "number \<Rightarrow> number \<Rightarrow> bool" where
  "num_le x y = (num_lt x y \<or> (x = y \<and> x \<noteq> NaN))"

definition Math_max2 :: "number \<Rightarrow> number \<Rightarrow> number" where
  \<comment> \<open>\<open>Math.max(x, y)\<close>\<close>
  "Math_max2 x y = (if x = NaN \<or> y = NaN then NaN else if num_lt x y then y else x)"

definition Math_min2 :: "number \<Rightarrow> number \<Rightarrow> number" where
  "Math_min2 x y = (if x = NaN \<or> y = NaN then NaN else if num_lt y x then y else x)"

definition Math_max :: "number list \<Rightarrow> number" where
  \<comment> \<open>\<open>Math.max(...xs)\<close>, which is \<open>-Infinity\<close> on no arguments\<close>
  "Math_max xs = foldl Math_max2 NegInfinity xs"

fun Math_ceil :: "number \<Rightarrow> number" where
  "Math_ceil (Fin a) = Fin (rat_of_int \<lceil>a\<rceil>)"
| "Math_ceil x = x"

fun Math_round :: "number \<Rightarrow> number" where
  \<comment> \<open>\<open>Math.round\<close> rounds a half upwards\<close>
  "Math_round (Fin a) = Fin (rat_of_int \<lfloor>a + 1 / 2\<rfloor>)"
| "Math_round x = x"

fun Math_pow :: "number \<Rightarrow> nat \<Rightarrow> number" where
  \<comment> \<open>\<open>Math.pow(x, n)\<close> for a whole exponent \<open>n\<close>, taken as correctly rounded\<close>
  "Math_pow (Fin a) n = round64 (a ^ n)"
| "Math_pow NaN n = (if n = 0 then Fin 1 else NaN)"
| "Math_pow PosInfinity n = (if n = 0 then Fin 1 else PosInfinity)"
| "Math_pow NegInfinity n = (if n = 0 then Fin 1 else if even n then PosInfinity else NegInfinity)"

definition or_num :: "number \<Rightarrow> number \<Rightarrow> number" where
  \<comment> \<open>\<open>x || d\<close> on numbers: zero and \<open>NaN\<close> are the falsy numbers\<close>
  "or_num x d = (if x = Fin 0 \<or> x = NaN then d else x)"

section \<open>The coverage calculators\<close>

text \<open>
  The lines of the \<open>reasoning\<close> array are kept as the template that builds each one
  together with the numbers it formats, in the order the source pushes them.
\<close>

definition OBJECT_PROTOTYPE_KEYS :: "string list" where
  \<comment> \<open>the property names that every object literal inherits\<close>
  "OBJECT_PROTOTYPE_KEYS =
     [''constructor'', ''hasOwnProperty'', ''isPrototypeOf'', ''propertyIsEnumerable'',
      ''toLocaleString'', ''toString'', ''valueOf'', ''__proto__'', ''__defineGetter__'',
      ''__defineSetter__'', ''__lookupGetter__'', ''__lookupSetter__'']"

definition or_lookup :: "(string \<times> number) list \<Rightarrow> string \<Rightarrow> number \<Rightarrow> number" where
  \<comment> \<open>\<open>TABLE[key] || d\<close> as it enters arithmetic: a key that the table lacks reads as
      undefined, but an inherited one reads a function or an object, which is truthy
      and is \<open>NaN\<close> as a number\<close>
  "or_lookup table k d =
     (case map_of table k of
        Some v \<Rightarrow> or_num v d
      | None \<Rightarrow> if k \<in> set OBJECT_PROTOTYPE_KEYS then NaN else d)"

definition CITY_MULTIPLIERS :: "(string \<times> number) list" where
  "CITY_MULTIPLIERS = [(''metro'', lit 1.5), (''tier1'', lit 1.2), (''tier2'', lit 1.0)]"

definition BASE_HOSPITAL_COST :: number where
  "BASE_HOSPITAL_COST = Fin 500000"

definition MEDICAL_INFLATION :: number where
  "MEDICAL_INFLATION = lit 0.10"

definition AGE_RISK_FACTOR :: "(string \<times> number) list" where
  "AGE_RISK_FACTOR =
     [(''child'', lit 0.5), (''young'', lit 0.8), (''middle'', lit 1.2), (''senior'', lit 1.8),
      (''elderly'', lit 2.5)]"

definition getAgeGroup :: "number \<Rightarrow> string" where
  "getAgeGroup age =
     (if num_le age (Fin 18) then ''child''
      else if num_le age (Fin 35) then ''young''
      else if num_le age (Fin 50) then ''middle''
      else if num_le age (Fin 65) then ''senior''
      else ''elderly'')"

record HealthCalcInput =
  city_tier :: string
  family_members :: "number list"
  has_preexisting :: bool
  corporate_cover :: number
  monthly_income :: number

datatype health_note =
    BaseCostNote string number
  | AgeRiskNote string number number
  | PreexistingNote
  | ProjectedNote number number
  | FamilySizeNote nat number
  | CorporateNote number number
  | SplitNote number number
  | SinglePlanNote number

record HealthCalcResult =
  recommended_cover_lakhs :: number
  base_plan_lakhs :: number
  super_topup_lakhs :: number
  coverage_gap_lakhs :: number
  health_premium_min :: number
  health_premium_max :: number
  health_reasoning :: "health_note list"

definition calculateHealthCoverage :: "HealthCalcInput \<Rightarrow> HealthCalcResult" where
  "calculateHealthCoverage input =
     (let reasoning = [];
          cityMultiplier = or_lookup CITY_MULTIPLIERS (city_tier input) (lit 1.0);
          baseCost = fmul BASE_HOSPITAL_COST cityMultiplier;
          reasoning = reasoning @ [BaseCostNote (city_tier input) (fdiv baseCost (Fin 100000))];
          maxAge = Math_max (family_members input);
          ageGroup = getAgeGroup maxAge;
          ageRisk = or_lookup AGE_RISK_FACTOR ageGroup (lit 1.0);
          baseCost = fmul baseCost ageRisk;
          reasoning = reasoning @ [AgeRiskNote ageGroup maxAge ageRisk];
          (baseCost, reasoning) =
            (if has_preexisting input then (fmul baseCost (lit 1.4), reasoning @ [PreexistingNote])
             else (baseCost, reasoning));
          projected = fmul baseCost (Math_pow (fadd (Fin 1) MEDICAL_INFLATION) 10);
          reasoning = reasoning @
            [ProjectedNote (fmul MEDICAL_INFLATION (Fin 100)) (fdiv projected (Fin 100000))];
          familyFactor =
            fadd (Fin 1)
              (fmul (fsub (Fin (rat_of_nat (length (family_members input)))) (Fin 1)) (lit 0.15));
          totalNeed = fmul projected familyFactor;
          reasoning = reasoning @ [FamilySizeNote (length (family_members input)) familyFactor];
          recommendedLakhs = fmul (Math_ceil (fdiv totalNeed (Fin 500000))) (Fin 5);
          corporateLakhs = or_num (corporate_cover input) (Fin 0);
          gapLakhs = Math_max2 (Fin 0) (fsub recommendedLakhs corporateLakhs);
          reasoning = (if num_lt (Fin 0) corporateLakhs
                       then reasoning @ [CorporateNote corporateLakhs gapLakhs]
                       else reasoning);
          basePlan = Math_min2 gapLakhs (Fin 25);
          superTopup = Math_max2 (Fin 0) (fsub gapLakhs basePlan);
          (basePlan, superTopup, reasoning) =
            (if num_lt (Fin 25) gapLakhs
             then (Fin 15, fsub gapLakhs (Fin 15),
                   reasoning @ [SplitNote (Fin 15) (fsub gapLakhs (Fin 15))])
             else (basePlan, superTopup, reasoning @ [SinglePlanNote basePlan]));
          premiumBase = fmul (fmul basePlan (Fin 800)) ageRisk;
          premiumMax = fmul premiumBase (lit 1.5)
      in \<lparr> recommended_cover_lakhs = recommendedLakhs,
           base_plan_lakhs = basePlan,
           super_topup_lakhs = superTopup,
           coverage_gap_lakhs = gapLakhs,
           health_premium_min = Math_round premiumBase,
           health_premium_max = Math_round premiumMax,
           health_reasoning = reasoning \<rparr>)"

record TermCalcInput =
  monthly_expenses :: number
  annual_income :: number
  total_debts :: number
  num_children :: number
  education_goal_per_child :: number
  existing_life_cover :: number
  current_age :: number
  retirement_age :: number

datatype term_note =
    IncomeNote number number number
  | DebtNote number
  | EducationNote number number number
  | TotalNeedNote number
  | ExistingCoverNote number number
  | TenureNote number number
  | PremiumNote number number

record TermCalcResult =
  recommended_cover_cr :: number
  income_replacement :: number
  debt_cover :: number
  education_fund :: number
  total_need :: number
  gap :: number
  recommended_tenure :: number
  term_premium_min :: number
  term_premium_max :: number
  term_reasoning :: "term_note list"

definition calculateTermCoverage :: "TermCalcInput \<Rightarrow> TermCalcResult" where
  "calculateTermCoverage input =
     (let reasoning = [];
          yearsToRetirement = Math_max2 (Fin 1) (fsub (retirement_age input) (current_age input));
          multiplier = Math_min2 (Fin 15) (Math_max2 (Fin 10) (fmul yearsToRetirement (lit 0.5)));
          incomeReplacement = fmul (annual_income input) multiplier;
          reasoning = reasoning @
            [IncomeNote (fdiv (annual_income input) (Fin 100000)) multiplier
               (fdiv incomeReplacement (Fin 10000000))];
          debtCover = total_debts input;
          reasoning = (if num_lt (Fin 0) debtCover
                       then reasoning @ [DebtNote (fdiv debtCover (Fin 100000))]
                       else reasoning);
          educationFund = fmul (num_children input) (education_goal_per_child input);
          reasoning =
            (if num_lt (Fin 0) educationFund
             then reasoning @ [EducationNote (num_children input)
                                 (fdiv (education_goal_per_child input) (Fin 100000))
                                 (fdiv educationFund (Fin 100000))]
             else reasoning);
          totalNeed = fadd (fadd incomeReplacement debtCover) educationFund;
          reasoning = reasoning @ [TotalNeedNote (fdiv totalNeed (Fin 10000000))];
          existingCover = or_num (existing_life_cover input) (Fin 0);
          gap = Math_max2 (Fin 0) (fsub totalNeed existingCover);
          reasoning =
            (if num_lt (Fin 0) existingCover
             then reasoning @ [ExistingCoverNote (fdiv existingCover (Fin 10000000))
                                 (fdiv gap (Fin 10000000))]
             else reasoning);
          recommendedCr = fmul (Math_ceil (fdiv gap (Fin 2500000))) (lit 0.25);
          recommendedTenure =
            Math_min2 (Fin 40)
              (Math_max2 (Fin 20)
                 (fadd (fsub (retirement_age input) (current_age input)) (Fin 5)));
          reasoning = reasoning @
            [TenureNote recommendedTenure (fadd (current_age input) recommendedTenure)];
          ageFactor = (if num_le (current_age input) (Fin 30) then lit 1.0
                       else if num_le (current_age input) (Fin 40) then lit 1.5 else lit 2.2);
          coverLakhs = fmul recommendedCr (Fin 100);
          premiumMin = Math_round (fmul (fmul coverLakhs (Fin 500)) ageFactor);
          premiumMax = Math_round (fmul (fmul coverLakhs (Fin 750)) ageFactor);
          reasoning = reasoning @ [PremiumNote premiumMin premiumMax]
      in \<lparr> recommended_cover_cr = recommendedCr,
           income_replacement = incomeReplacement,
           debt_cover = debtCover,
           education_fund = educationFund,
           total_need = totalNeed,
           gap = gap,
           recommended_tenure = recommendedTenure,
           term_premium_min = premiumMin,
           term_premium_max = premiumMax,
           term_reasoning = reasoning \<rparr>)"

section \<open>The tool catalogue and its dispatch\<close>

record Tool =
  tool_name :: string
  tool_properties :: "string list"
  tool_required :: "string list"

definition TOOLS :: "Tool list" where
  \<comment> \<open>the catalogue entries with their parameter names; the prose descriptions are left out\<close>
  "TOOLS =
     [\<lparr> tool_name = ''search_insurance_knowledge'',
        tool_properties = [''query'', ''category''],
        tool_required = [''query''] \<rparr>,
      \<lparr> tool_name = ''search_policies'',
        tool_properties = [''query'', ''category'', ''insurer_name''],
        tool_required = [''query''] \<rparr>,
      \<lparr> tool_name = ''compare_policies'',
        tool_properties = [''policy_identifiers''],
        tool_required = [''policy_identifiers''] \<rparr>,
      \<lparr> tool_name = ''calculate_health_coverage'',
        tool_properties = [''city_tier'', ''family_members'', ''has_preexisting'',
                           ''corporate_cover'', ''monthly_income''],
        tool_required = [''city_tier'', ''family_members'', ''has_preexisting'',
                         ''corporate_cover''] \<rparr>,
      \<lparr> tool_name = ''calculate_term_coverage'',
        tool_properties = [''annual_income'', ''monthly_expenses'', ''total_debts'',
                           ''num_children'', ''education_goal_per_child'',
                           ''existing_life_cover'', ''current_age'', ''retirement_age''],
        tool_required = [''annual_income'', ''monthly_expenses'', ''total_debts'',
                         ''current_age''] \<rparr>,
      \<lparr> tool_name = ''get_claims_guidance'',
        tool_properties = [''query'', ''insurance_type''],
        tool_required = [''query''] \<rparr>,
      \<lparr> tool_name = ''get_insurer_details'',
        tool_properties = [''insurer_name''],
        tool_required = [''insurer_name''] \<rparr>,
      \<lparr> tool_name = ''book_consultation'',
        tool_properties = [''reason''],
        tool_required = [''reason''] \<rparr>]"

text \<open>
  The payload of a call is read through the casts that the dispatch applies to it:
  each parameter is a field of the type the cast names, and \<^const>\<open>None\<close> where the
  payload has no such key. A payload whose value has another type than the cast
  names is not a payload of the model.
\<close>

record ToolInput =
  arg_query :: "string option"
  arg_category :: "string option"
  arg_insurer_name :: "string option"
  arg_policy_identifiers :: "string list option"
  arg_city_tier :: "string option"
  arg_family_members :: "number list option"
  arg_has_preexisting :: "bool option"
  arg_corporate_cover :: "number option"
  arg_monthly_income :: "number option"
  arg_annual_income :: "number option"
  arg_monthly_expenses :: "number option"
  arg_total_debts :: "number option"
  arg_num_children :: "number option"
  arg_education_goal_per_child :: "number option"
  arg_existing_life_cover :: "number option"
  arg_current_age :: "number option"
  arg_retirement_age :: "number option"
  arg_insurance_type :: "string option"
  arg_reason :: "string option"

record Env =
  ANTHROPIC_API_KEY :: "string option"
  NEXT_PUBLIC_BOOKING_URL :: "string option"

record Booking =
  booking_message :: string
  booking_bookingUrl :: string
  booking_reason :: "string option"
  booking_phone :: string
  booking_whatsapp :: string
  booking_email :: string

datatype tool_output =
    Text string
  | HealthJSON HealthCalcResult
  | TermJSON TermCalcResult
  | BookingJSON Booking

datatype error =
    TypeError string
  | SyntaxError string
  | UpstreamError string

text \<open>
  The result of a dispatch is the string the source returns; where that string is
  \<open>JSON.stringify\<close> of a value, the value stands for it. A thrown exception is
  \<^const>\<open>Inl\<close>: reading a property of \<open>undefined\<close> throws a \<open>TypeError\<close>.
\<close>

definition undefined_or_str :: "string option \<Rightarrow> string \<Rightarrow> string" where
  \<comment> \<open>\<open>s || d\<close> on an optional string\<close>
  "undefined_or_str s d = (case s of None \<Rightarrow> d | Some v \<Rightarrow> if v = [] then d else v)"

definition undefined_or_num :: "number option \<Rightarrow> number \<Rightarrow> number" where
  \<comment> \<open>\<open>x || d\<close> on an optional number\<close>
  "undefined_or_num x d = (case x of None \<Rightarrow> d | Some v \<Rightarrow> or_num v d)"

definition undefined_or_bool :: "bool option \<Rightarrow> bool \<Rightarrow> bool" where
  "undefined_or_bool b d = (case b of None \<Rightarrow> d | Some v \<Rightarrow> v \<or> d)"

definition undefined_or_array :: "'a list option \<Rightarrow> 'a list \<Rightarrow> 'a list" where
  \<comment> \<open>an array is truthy, the empty one too\<close>
  "undefined_or_array xs d = (case xs of None \<Rightarrow> d | Some v \<Rightarrow> v)"

fun string_of_nat :: "nat \<Rightarrow> string" where
  "string_of_nat n =
     (if n < 10 then [char_of (48 + n)]
      else string_of_nat (n div 10) @ [char_of (48 + n mod 10)])"

declare string_of_nat.simps [simp del]

text \<open>The four pictographs that open a rendered entry, as their UTF-8 bytes.\<close>

definition PAGE_SIGN :: string where
  "PAGE_SIGN = [CHR 0xF0, CHR 0x9F, CHR 0x93, CHR 0x84]"

definition CLIPBOARD_SIGN :: string where
  "CLIPBOARD_SIGN = [CHR 0xF0, CHR 0x9F, CHR 0x93, CHR 0x8B]"

definition BOOKMARK_SIGN :: string where
  "BOOKMARK_SIGN = [CHR 0xF0, CHR 0x9F, CHR 0x93, CHR 0x91]"

definition OFFICE_SIGN :: string where
  "OFFICE_SIGN = [CHR 0xF0, CHR 0x9F, CHR 0x8F, CHR 0xA2]"

definition DEFAULT_BOOKING_URL :: string where
  "DEFAULT_BOOKING_URL =
     ''https://calendar.google.com/calendar/appointments/schedules/'' @
     ''AcZssZ0ORrvJhRP3kGcmYIOl5S_BZfb45n3aex1Lt-Yew3wXTkjLhEBhJsJm1bD0BQFH7FZbpKX69Ci''"

definition READ_toLowerCase :: string where
  \<comment> \<open>the message of the exception that \<open>text.toLowerCase()\<close> throws on \<open>undefined\<close>\<close>
  "READ_toLowerCase =
     ''Cannot read properties of undefined (reading '' @ [CHR 0x27] @ ''toLowerCase'' @
     [CHR 0x27] @ '')''"

definition READ_map :: string where
  "READ_map =
     ''Cannot read properties of undefined (reading '' @ [CHR 0x27] @ ''map'' @ [CHR 0x27] @ '')''"

definition executeTool :: "KnowledgeBase \<Rightarrow> Env \<Rightarrow> string \<Rightarrow> ToolInput \<Rightarrow> error + tool_output" where
  "executeTool kb env toolName toolInput =
     (if toolName = ''search_insurance_knowledge'' then
        (case arg_query toolInput of
           None \<Rightarrow> Inl (TypeError READ_toLowerCase)
         | Some query \<Rightarrow>
             (let arts = searchArticles kb query (arg_category toolInput) 3
              in if length arts = 0
                 then Inr (Text ''No articles found for this query. Try rephrasing or ask me directly.'')
                 else Inr (Text (join (NL @ NL @ ''---'' @ NL @ NL)
                        (map (\<lambda>a. let chunks = join (NL @ NL) (slice (article_chunks a) 0 2)
                                   in PAGE_SIGN @ '' '' @ article_title a @ '' ('' @
                                      article_category a @ '')'' @ NL @ chunks) arts)))))
      else if toolName = ''search_policies'' then
        (case arg_query toolInput of
           None \<Rightarrow> Inl (TypeError READ_toLowerCase)
         | Some query \<Rightarrow>
             (let pols = searchPolicies kb query (arg_category toolInput)
                           (arg_insurer_name toolInput) 5
              in if length pols = 0
                 then Inr (Text ''No matching policies found. Try a different insurer name or broader query.'')
                 else Inr (Text (join (NL @ NL @ ''---'' @ NL @ NL)
                        (map (\<lambda>p. CLIPBOARD_SIGN @ '' '' @ policy_name p @ '' by '' @
                                   policy_insurerName p @ NL @ policy_summary p) pols)))))
      else if toolName = ''compare_policies'' then
        (case arg_policy_identifiers toolInput of
           None \<Rightarrow> Inl (TypeError READ_map)
         | Some ids \<Rightarrow>
             (let pols = comparePolicies kb ids
              in if length pols < 2
                 then Inr (Text (''Could only find '' @ string_of_nat (length pols) @
                        '' of the requested policies. Available policies: '' @
                        join '', '' (map policy_name pols) @
                        ''. Please check the policy names.''))
                 else Inr (Text (join (NL @ NL @ ''=== VS ==='' @ NL @ NL)
                        (map (\<lambda>p. CLIPBOARD_SIGN @ '' '' @ policy_name p @ '' by '' @
                                   policy_insurerName p @ NL @ policy_summary p) pols)))))
      else if toolName = ''calculate_health_coverage'' then
        (let result = calculateHealthCoverage
               \<lparr> city_tier = undefined_or_str (arg_city_tier toolInput) ''metro'',
                 family_members = undefined_or_array (arg_family_members toolInput) [Fin 30],
                 has_preexisting = undefined_or_bool (arg_has_preexisting toolInput) False,
                 corporate_cover = undefined_or_num (arg_corporate_cover toolInput) (Fin 0),
                 monthly_income = undefined_or_num (arg_monthly_income toolInput) (Fin 0) \<rparr>
         in Inr (HealthJSON result))
      else if toolName = ''calculate_term_coverage'' then
        (let result = calculateTermCoverage
               \<lparr> monthly_expenses = undefined_or_num (arg_monthly_expenses toolInput) (Fin 0),
                 annual_income = undefined_or_num (arg_annual_income toolInput) (Fin 0),
                 total_debts = undefined_or_num (arg_total_debts toolInput) (Fin 0),
                 num_children = undefined_or_num (arg_num_children toolInput) (Fin 0),
                 education_goal_per_child =
                   undefined_or_num (arg_education_goal_per_child toolInput) (Fin 2500000),
                 existing_life_cover = undefined_or_num (arg_existing_life_cover toolInput) (Fin 0),
                 current_age = undefined_or_num (arg_current_age toolInput) (Fin 30),
                 retirement_age = undefined_or_num (arg_retirement_age toolInput) (Fin 60) \<rparr>
         in Inr (TermJSON result))
      else if toolName = ''get_claims_guidance'' then
        (case arg_query toolInput of
           None \<Rightarrow> Inl (TypeError READ_toLowerCase)
         | Some query \<Rightarrow>
             (let guides = searchClaimsGuides kb query (arg_insurance_type toolInput)
              in if length guides = 0
                 then Inr (Text (''No specific claims guide found. For general claims support, '' @
                        ''contact NYVO at +91 99000 91495 or book a consultation.''))
                 else Inr (Text (join (NL @ NL @ ''---'' @ NL @ NL)
                        (map (\<lambda>g. BOOKMARK_SIGN @ '' '' @ guide_title g @ NL @
                                   substring0 (guide_content g) 2000) guides)))))
      else if toolName = ''get_insurer_details'' then
        (case arg_insurer_name toolInput of
           None \<Rightarrow> Inl (TypeError READ_toLowerCase)
         | Some name \<Rightarrow>
             (case getInsurer kb name of
                None \<Rightarrow>
                  Inr (Text (''Insurer '' @ [CHR 0x22] @ name @ [CHR 0x22] @
                     '' not found. Available insurers include Star Health, HDFC ERGO, '' @
                     ''ICICI Lombard, Care Health, Niva Bupa, Bajaj Allianz, LIC, Max Life, etc.''))
              | Some insurer \<Rightarrow>
                  (let pols = getPoliciesByInsurer kb (insurer_name insurer)
                   in Inr (Text (join NL (filter (\<lambda>line. line \<noteq> [])
                        [OFFICE_SIGN @ '' '' @ insurer_name insurer @ '' ('' @
                           insurer_shortName insurer @ '')'',
                         ''Type: '' @ insurer_type insurer,
                         (if insurer_renewalLink insurer \<noteq> []
                          then ''Renewal Portal: '' @ insurer_renewalLink insurer else []),
                         (if length pols > 0
                          then ''Available Plans: '' @ join '', '' (map policy_name pols)
                          else [])]))))))
      else if toolName = ''book_consultation'' then
        (let bookingUrl = undefined_or_str (NEXT_PUBLIC_BOOKING_URL env) DEFAULT_BOOKING_URL
         in Inr (BookingJSON
              \<lparr> booking_message = ''Book a free consultation with NYVO insurance advisors'',
                booking_bookingUrl = bookingUrl,
                booking_reason = arg_reason toolInput,
                booking_phone = ''+91 99000 91495'',
                booking_whatsapp = ''+91 99000 91495'',
                booking_email = ''hello@nyvo.in'' \<rparr>))
      else Inr (Text (''Unknown tool: '' @ toolName)))"

section \<open>The chat route\<close>

datatype role = user | assistant

record ConversationMessage =
  msg_role :: role
  msg_content :: string

datatype content_block =
    TextBlock string
  | ToolUseBlock string string ToolInput
  | OtherBlock string

record Message =
  content :: "content_block list"
  stop_reason :: "string option"

record ToolResultBlockParam =
  tool_use_id :: string
  result_content :: tool_output

datatype param_content =
    StringContent string
  | BlockContent "content_block list"
  | ToolResultContent "ToolResultBlockParam list"

record MessageParam =
  param_role :: role
  param_content :: param_content

record CreateParams =
  req_model :: string
  req_max_tokens :: nat
  req_system :: string
  req_tools :: "Tool list"
  req_messages :: "MessageParam list"

text \<open>
  The reasoning engine is the remote call \<open>anthropic.messages.create\<close>: a function
  from the request to the response, or to the exception the call throws. The list of
  messages grows with every call of one question, so such a function can answer the
  successive calls with any sequence of responses.
\<close>

type_synonym engine = "CreateParams \<Rightarrow> error + Message"

record ChatBody =
  body_message :: "string option"
  body_conversationHistory :: "ConversationMessage list option"
  body_language :: "string option"

datatype response_body =
    ErrorJSON string "string option"
  | ChatJSON string "string option" "string list"

record NextResponse =
  status :: nat
  json :: response_body

definition error_message :: "error \<Rightarrow> string" where
  "error_message e = (case e of TypeError m \<Rightarrow> m | SyntaxError m \<Rightarrow> m | UpstreamError m \<Rightarrow> m)"

definition create_params :: "string \<Rightarrow> MessageParam list \<Rightarrow> CreateParams" where
  "create_params augmentedSystem messages =
     \<lparr> req_model = ''claude-sonnet-4-20250514'',
       req_max_tokens = 400,
       req_system = augmentedSystem,
       req_tools = TOOLS,
       req_messages = messages \<rparr>"

definition EM_DASH :: string where
  \<comment> \<open>the dash of the fallback sentence, as its UTF-8 bytes\<close>
  "EM_DASH = [CHR 0xE2, CHR 0x80, CHR 0x94]"

definition augmented_system :: "string \<Rightarrow> string \<Rightarrow> string \<Rightarrow> string" where
  "augmented_system SYSTEM_PROMPT language ragContext =
     SYSTEM_PROMPT @ NL @ NL @
     ''## CURRENT LANGUAGE'' @ NL @
     ''The user is speaking in: '' @ (if language = ''hi'' then ''Hindi'' else ''English'') @
     ''. Respond in the same language.'' @ NL @
     (if language = ''hi''
      then ''Respond in Hindi (Devanagari script). Use simple Hindi that is easy to understand.''
      else []) @ NL @ NL @
     ''## RELEVANT KNOWLEDGE BASE CONTEXT'' @ NL @
     ''The following information from NYVO'' @ [CHR 0x27] @
     ''s knowledge base may be relevant to the user'' @ [CHR 0x27] @
     ''s query. Use this to provide accurate answers:'' @ NL @ NL @
     (if ragContext \<noteq> [] then ragContext
      else ''No specific context found '' @ EM_DASH @
           '' use your general insurance knowledge and available tools.'')"

definition prepare_messages ::
  "string \<Rightarrow> ConversationMessage list \<Rightarrow> ConversationMessage list \<times> MessageParam list" where
  \<comment> \<open>the statements that fill \<open>messages\<close>, as state passing over the two arrays they touch:
      the caller's \<open>conversationHistory\<close>, as the statements leave it, and \<open>messages\<close>\<close>
  "prepare_messages message conversationHistory =
     (let messages = [];
          recentHistory = slice_from conversationHistory (- 10);
          messages = foldl (\<lambda>messages msg.
                        messages @ [\<lparr> param_role = msg_role msg,
                                      param_content = StringContent (msg_content msg) \<rparr>])
                       messages recentHistory;
          messages = messages @ [\<lparr> param_role = user, param_content = StringContent message \<rparr>]
      in (conversationHistory, messages))"

fun map_throw :: "('a \<Rightarrow> error + 'b) \<Rightarrow> 'a list \<Rightarrow> error + 'b list" where
  \<comment> \<open>\<open>xs.map(f)\<close> where \<open>f\<close> may throw: the first exception ends the traversal\<close>
  "map_throw f [] = Inr []"
| "map_throw f (x # xs) =
     (case f x of
        Inl e \<Rightarrow> Inl e
      | Inr y \<Rightarrow> (case map_throw f xs of Inl e \<Rightarrow> Inl e | Inr ys \<Rightarrow> Inr (y # ys)))"

definition tool_use_blocks :: "content_block list \<Rightarrow> (string \<times> string \<times> ToolInput) list" where
  \<comment> \<open>the blocks of type \<open>tool_use\<close>, each as its identifier, name and input\<close>
  "tool_use_blocks blocks =
     List.map_filter (\<lambda>b. case b of ToolUseBlock i n inp \<Rightarrow> Some (i, n, inp) | _ \<Rightarrow> None) blocks"

definition text_blocks :: "content_block list \<Rightarrow> string list" where
  "text_blocks blocks = List.map_filter (\<lambda>b. case b of TextBlock t \<Rightarrow> Some t | _ \<Rightarrow> None) blocks"

definition maxIterations :: nat where
  "maxIterations = 5"

record LoopState =
  response :: Message
  iterations :: nat
  messages :: "MessageParam list"

datatype loop_result = Returned LoopState | Thrown error LoopState

function tool_loop ::
  "engine \<Rightarrow> KnowledgeBase \<Rightarrow> Env \<Rightarrow> string \<Rightarrow> LoopState \<Rightarrow> loop_result" where
  \<comment> \<open>the \<open>while\<close> loop over the local variables \<open>response\<close>, \<open>iterations\<close> and \<open>messages\<close>;
      an exception leaves it with the variables as they are at that point\<close>
  "tool_loop engine kb env augmentedSystem st =
     (if stop_reason (response st) = Some ''tool_use'' \<and> iterations st < maxIterations then
        (let st = st\<lparr> iterations := iterations st + 1 \<rparr>;
             toolUseBlocks = tool_use_blocks (content (response st))
         in case map_throw (\<lambda>(i, n, inp).
                   case executeTool kb env n inp of
                     Inl e \<Rightarrow> Inl e
                   | Inr out \<Rightarrow> Inr \<lparr> tool_use_id = i, result_content = out \<rparr>) toolUseBlocks of
              Inl e \<Rightarrow> Thrown e st
            | Inr toolResults \<Rightarrow>
                (let st = st\<lparr> messages := messages st @
                            [\<lparr> param_role = assistant,
                               param_content = BlockContent (content (response st)) \<rparr>,
                             \<lparr> param_role = user,
                               param_content = ToolResultContent toolResults \<rparr>] \<rparr>
                 in case engine (create_params augmentedSystem (messages st)) of
                      Inl e \<Rightarrow> Thrown e st
                    | Inr r \<Rightarrow> tool_loop engine kb env augmentedSystem (st\<lparr> response := r \<rparr>)))
      else Returned st)"
  by pat_completeness auto
termination
  by (relation "measure (\<lambda>(engine, kb, env, sys, st). maxIterations - iterations st)") auto

declare tool_loop.simps [simp del]

definition DQ :: char where
  "DQ = CHR 0x22"

fun strip_prefix :: "string \<Rightarrow> string \<Rightarrow> string option" where
  "strip_prefix [] s = Some s"
| "strip_prefix (p # ps) [] = None"
| "strip_prefix (p # ps) (c # cs) = (if p = c then strip_prefix ps cs else None)"

definition match_bookingUrl_here :: "string \<Rightarrow> string option" where
  \<comment> \<open>the pattern \<open>"bookingUrl":\s*"([^"]+)"\<close> at the head of the string: its group\<close>
  "match_bookingUrl_here s =
     (case strip_prefix ([DQ] @ ''bookingUrl'' @ [DQ] @ '':'') s of
        None \<Rightarrow> None
      | Some r \<Rightarrow>
          (case dropWhile isSpace r of
             [] \<Rightarrow> None
           | q # r' \<Rightarrow>
               (let url = takeWhile (\<lambda>c. c \<noteq> DQ) r'; rest = dropWhile (\<lambda>c. c \<noteq> DQ) r'
                in if q = DQ \<and> url \<noteq> [] \<and> rest \<noteq> [] then Some url else None)))"

fun match_bookingUrl :: "string \<Rightarrow> string option" where
  \<comment> \<open>\<open>text.match(...)\<close>: the leftmost match\<close>
  "match_bookingUrl [] = match_bookingUrl_here []"
| "match_bookingUrl (c # cs) =
     (case match_bookingUrl_here (c # cs) of
        Some url \<Rightarrow> Some url
      | None \<Rightarrow> match_bookingUrl cs)"

definition extract_bookingUrl :: "content_block list \<Rightarrow> string option" where
  \<comment> \<open>the last text block with a match decides\<close>
  "extract_bookingUrl blocks =
     foldl (\<lambda>bookingUrl block.
              case block of
                TextBlock t \<Rightarrow>
                  (if str_includes t ''bookingUrl''
                   then (case match_bookingUrl t of Some url \<Rightarrow> Some url | None \<Rightarrow> bookingUrl)
                   else bookingUrl)
              | _ \<Rightarrow> bookingUrl)
       None blocks"

definition chat_failed :: "error \<Rightarrow> NextResponse" where
  \<comment> \<open>the \<open>catch\<close> clause of the handler\<close>
  "chat_failed e = \<lparr> status = 500, json = ErrorJSON ''Chat failed'' (Some (error_message e)) \<rparr>"

definition final_response :: "Message \<Rightarrow> NextResponse" where
  "final_response resp =
     (let textBlocks = text_blocks (content resp);
          assistantMessage = join NL textBlocks;
          bookingUrl = extract_bookingUrl (content resp)
      in \<lparr> status = 200,
           json = ChatJSON assistantMessage bookingUrl
                    (map (\<lambda>(i, n, inp). n) (tool_use_blocks (content resp))) \<rparr>)"

definition POST ::
  "engine \<Rightarrow> KnowledgeBase \<Rightarrow> Env \<Rightarrow> string \<Rightarrow> error + ChatBody \<Rightarrow> NextResponse" where
  \<comment> \<open>\<open>SYSTEM_PROMPT\<close> is the prose constant of the tool module; the last argument is
      what \<open>request.json()\<close> gives: the parsed body, or the exception of a body that does
      not parse\<close>
  "POST engine kb env SYSTEM_PROMPT request =
     (if undefined_or_str (ANTHROPIC_API_KEY env) [] = [] then
        \<lparr> status = 500, json = ErrorJSON ''Anthropic API key not configured'' None \<rparr>
      else
        (case request of
           Inl e \<Rightarrow> chat_failed e
         | Inr body \<Rightarrow>
             (let conversationHistory = undefined_or_array (body_conversationHistory body) [];
                  language = (case body_language body of None \<Rightarrow> ''en'' | Some l \<Rightarrow> l)
              in if undefined_or_str (body_message body) [] = [] then
                   \<lparr> status = 400, json = ErrorJSON ''No message provided'' None \<rparr>
                 else
                   (let message = undefined_or_str (body_message body) [];
                        ragContext = buildContext kb message;
                        augmentedSystem = augmented_system SYSTEM_PROMPT language ragContext;
                        (conversationHistory, msgs) =
                          prepare_messages message conversationHistory
                    in case engine (create_params augmentedSystem msgs) of
                         Inl e \<Rightarrow> chat_failed e
                       | Inr resp \<Rightarrow>
                           (case tool_loop engine kb env augmentedSystem
                                   \<lparr> response = resp, iterations = 0,
                                     messages = msgs \<rparr> of
                              Thrown e st \<Rightarrow> chat_failed e
                            | Returned st \<Rightarrow> final_response (response st))))))"

section \<open>Notions used to state the properties\<close>

subsection \<open>What each search scores a document on\<close>

definition articleText :: "Article \<Rightarrow> string" where
  "articleText a = article_title a @ '' '' @ substring0 (join '' '' (article_chunks a)) 500"

definition articleScore :: "string \<Rightarrow> Article \<Rightarrow> int" where
  "articleScore query a = scoreMatch (article_keywords a) (articleText a) (tokenize query)"

definition policyText :: "Policy \<Rightarrow> string" where
  "policyText p = policy_name p @ '' '' @ policy_summary p"

definition policyScore :: "string \<Rightarrow> Policy \<Rightarrow> int" where
  "policyScore query p = scoreMatch (policy_keywords p) (policyText p) (tokenize query)"

definition guideText :: "ClaimsGuide \<Rightarrow> string" where
  "guideText g = guide_title g @ '' '' @ substring0 (guide_content g) 500"

definition guideScore :: "string \<Rightarrow> ClaimsGuide \<Rightarrow> int" where
  "guideScore query g = scoreMatch (guide_keywords g) (guideText g) (tokenize query)"

definition category_ok :: "string option \<Rightarrow> string \<Rightarrow> bool" where
  \<comment> \<open>the category filter: a missing or empty filter lets every document pass\<close>
  "category_ok category c = (case category of None \<Rightarrow> True | Some x \<Rightarrow> x = [] \<or> c = x)"

definition insurer_ok :: "string option \<Rightarrow> Policy \<Rightarrow> bool" where
  "insurer_ok insurerName p =
     (case insurerName of
        None \<Rightarrow> True
      | Some i \<Rightarrow> i = [] \<or> str_includes (toLowerCase (policy_insurerName p)) (toLowerCase i)
                          \<or> str_includes (toLowerCase (policy_insurerId p)) (toLowerCase i))"

definition ranked :: "('a \<Rightarrow> int) \<Rightarrow> 'a list \<Rightarrow> int \<Rightarrow> 'a list" where
  \<comment> \<open>the tail that the three searches share, on the documents instead of the scored pairs\<close>
  "ranked f ds n = slice (sort_key (\<lambda>d. - f d) (filter (\<lambda>d. 0 < f d) ds)) 0 n"

subsection \<open>The lexical score as the specification words it\<close>

definition spec_token_points :: "string list \<Rightarrow> string \<Rightarrow> string \<Rightarrow> int" where
  \<comment> \<open>3 points for a keyword that contains the token or is contained in it, 1 more for a
      token that the lower-cased text contains\<close>
  "spec_token_points keywords text token =
     (if list_ex (\<lambda>kw. sublist token kw \<or> sublist kw token) keywords then 3 else 0) +
     (if sublist token (toLowerCase text) then 1 else 0)"

definition spec_score :: "string list \<Rightarrow> string \<Rightarrow> string list \<Rightarrow> int" where
  "spec_score keywords text tokens = sum_list (map (spec_token_points keywords text) tokens)"

definition token_misses :: "string list \<Rightarrow> string \<Rightarrow> string \<Rightarrow> bool" where
  \<comment> \<open>the token neither contains a keyword nor occurs in one, and does not occur in the
      lower-cased text\<close>
  "token_misses keywords text token =
     (\<not> list_ex (\<lambda>kw. sublist token kw \<or> sublist kw token) keywords \<and>
      \<not> sublist token (toLowerCase text))"

definition no_token_matches :: "string list \<Rightarrow> string \<Rightarrow> string \<Rightarrow> bool" where
  "no_token_matches keywords text query = list_all (token_misses keywords text) (tokenize query)"

definition token_absent :: "string list \<Rightarrow> string \<Rightarrow> string \<Rightarrow> bool" where
  \<comment> \<open>the token occurs in no keyword and not in the text\<close>
  "token_absent keywords text token =
     (\<not> list_ex (\<lambda>kw. sublist token kw) keywords \<and> \<not> sublist token text \<and>
      \<not> sublist token (toLowerCase text))"

definition no_token_occurs :: "string list \<Rightarrow> string \<Rightarrow> string \<Rightarrow> bool" where
  "no_token_occurs keywords text query = list_all (token_absent keywords text) (tokenize query)"

subsection \<open>The context block as the specification words it\<close>

definition spec_article_section :: "Article list \<Rightarrow> string list" where
  \<comment> \<open>no hit, no header; else the header, then per article its label and first two chunks\<close>
  "spec_article_section hits =
     (if hits = [] then []
      else ''=== RELEVANT ARTICLES ==='' #
           map (\<lambda>a. NL @ ''--- '' @ article_title a @ '' ('' @ article_category a @ '') ---'' @
                     NL @ join (NL @ NL) (take 2 (article_chunks a))) hits)"

definition spec_policy_section :: "Policy list \<Rightarrow> string list" where
  "spec_policy_section hits =
     (if hits = [] then []
      else (NL @ ''=== RELEVANT POLICIES ==='') #
           map (\<lambda>p. NL @ ''--- '' @ policy_name p @ '' by '' @ policy_insurerName p @ '' ---'' @
                     NL @ policy_summary p) hits)"

definition spec_claims_section :: "ClaimsGuide list \<Rightarrow> string list" where
  "spec_claims_section hits =
     (if hits = [] then []
      else (NL @ ''=== CLAIMS GUIDANCE ==='') #
           map (\<lambda>g. NL @ ''--- '' @ guide_title g @ '' ---'' @ NL @ take 1500 (guide_content g))
             hits)"

definition spec_context :: "KnowledgeBase \<Rightarrow> string \<Rightarrow> string" where
  "spec_context kb query =
     join NL (spec_article_section (searchArticles kb query None 2) @
              spec_policy_section (searchPolicies kb query None None 3) @
              spec_claims_section (searchClaimsGuides kb query None))"

subsection \<open>The loop's last state\<close>

fun final_state :: "loop_result \<Rightarrow> LoopState" where
  "final_state (Returned st) = st"
| "final_state (Thrown e st) = st"

definition dispatch_ok :: "KnowledgeBase \<Rightarrow> Env \<Rightarrow> Message \<Rightarrow> bool" where
  \<comment> \<open>the response asks for tools, and none of its calls throws\<close>
  "dispatch_ok kb env m =
     (stop_reason m = Some ''tool_use'' \<and>
      list_all (\<lambda>(i, n, inp). case executeTool kb env n inp of Inl e \<Rightarrow> False | Inr out \<Rightarrow> True)
        (tool_use_blocks (content m)))"

subsection \<open>Parts of the chat route by name\<close>

definition run_tools :: "KnowledgeBase \<Rightarrow> Env \<Rightarrow> Message \<Rightarrow> error + ToolResultBlockParam list" where
  "run_tools kb env m =
     map_throw (\<lambda>(i, n, inp).
         case executeTool kb env n inp of
           Inl e \<Rightarrow> Inl e
         | Inr out \<Rightarrow> Inr \<lparr> tool_use_id = i, result_content = out \<rparr>)
       (tool_use_blocks (content m))"

definition next_messages :: "LoopState \<Rightarrow> ToolResultBlockParam list \<Rightarrow> MessageParam list" where
  "next_messages st toolResults =
     messages st @
       [\<lparr> param_role = assistant, param_content = BlockContent (content (response st)) \<rparr>,
        \<lparr> param_role = user, param_content = ToolResultContent toolResults \<rparr>]"

definition first_request :: "string \<Rightarrow> KnowledgeBase \<Rightarrow> ChatBody \<Rightarrow> CreateParams" where
  \<comment> \<open>the request of the handler's first call of the engine, for a body with a message\<close>
  "first_request SYSTEM_PROMPT kb body =
     (let conversationHistory = undefined_or_array (body_conversationHistory body) [];
          language = (case body_language body of None \<Rightarrow> ''en'' | Some l \<Rightarrow> l);
          message = undefined_or_str (body_message body) [];
          ragContext = buildContext kb message;
          augmentedSystem = augmented_system SYSTEM_PROMPT language ragContext
      in create_params augmentedSystem (snd (prepare_messages message conversationHistory)))"

definition history_param :: "ConversationMessage \<Rightarrow> MessageParam" where
  "history_param msg = \<lparr> param_role = msg_role msg, param_content = StringContent (msg_content msg) \<rparr>"

definition accepted :: "Env \<Rightarrow> ChatBody \<Rightarrow> bool" where
  \<comment> \<open>the key is configured and the body has a message: the handler reaches the engine\<close>
  "accepted env body =
     (undefined_or_str (ANTHROPIC_API_KEY env) [] \<noteq> [] \<and>
      undefined_or_str (body_message body) [] \<noteq> [])"

subsection \<open>A small knowledge base to run the definitions on\<close>

definition demo_a1 :: Article where
  "demo_a1 =
     \<lparr> article_id = ''a1'', article_title = ''No Claim Bonus explained'',
       article_category = ''health-insurance'', article_slug = ''no-claim-bonus'',
       article_keywords = [''no claim bonus'', ''ncb''],
       article_sections = [],
       article_chunks = [''A no claim bonus rewards claim free years.'', ''It grows the cover.'',
                         ''Check the cap.''],
       article_fullContent = ''A no claim bonus rewards claim free years.'' \<rparr>"

definition demo_a2 :: Article where
  "demo_a2 =
     \<lparr> article_id = ''a2'', article_title = ''Term plans'',
       article_category = ''term-insurance'', article_slug = ''term-plans'',
       article_keywords = [''term'', ''claim''],
       article_sections = [],
       article_chunks = [''Pure protection cover.''],
       article_fullContent = ''Pure protection cover.'' \<rparr>"

definition demo_a3 :: Article where
  "demo_a3 =
     \<lparr> article_id = ''a3'', article_title = ''Bonus basics'',
       article_category = ''health-insurance'', article_slug = ''bonus-basics'',
       article_keywords = [''bonus''],
       article_sections = [],
       article_chunks = [''Loyalty pays.''],
       article_fullContent = ''Loyalty pays.'' \<rparr>"

definition demo_a4 :: Article where
  "demo_a4 =
     \<lparr> article_id = ''a4'', article_title = ''Cumulative bonus'',
       article_category = ''general'', article_slug = ''cumulative-bonus'',
       article_keywords = [''bonus''],
       article_sections = [],
       article_chunks = [''Year on year.''],
       article_fullContent = ''Year on year.'' \<rparr>"

definition demo_p1 :: Policy where
  "demo_p1 =
     \<lparr> policy_id = ''p1'', policy_name = ''Care Supreme'', policy_insurerName = ''Care Health'',
       policy_insurerId = ''care'', policy_category = ''health-insurance'',
       policy_description = ''Health plan'', policy_summary = ''Cover with a bonus on renewal.'',
       policy_keywords = [''care'', ''bonus''] \<rparr>"

definition demo_g1 :: ClaimsGuide where
  "demo_g1 =
     \<lparr> guide_id = ''g1'', guide_title = ''Cashless claim steps'',
       guide_category = ''health-insurance'',
       guide_content = ''Tell the insurer before admission.'',
       guide_keywords = [''cashless'', ''claim''] \<rparr>"

definition demo_kb :: KnowledgeBase where
  "demo_kb =
     \<lparr> articles = [demo_a1, demo_a2, demo_a3, demo_a4],
       policies = [demo_p1],
       insurers = [],
       claimsGuides = [demo_g1] \<rparr>"

definition demo_env :: Env where
  "demo_env = \<lparr> ANTHROPIC_API_KEY = Some ''key'', NEXT_PUBLIC_BOOKING_URL = None \<rparr>"

definition no_args :: ToolInput where
  \<comment> \<open>the empty payload\<close>
  "no_args =
     \<lparr> arg_query = None, arg_category = None, arg_insurer_name = None,
       arg_policy_identifiers = None, arg_city_tier = None, arg_family_members = None,
       arg_has_preexisting = None, arg_corporate_cover = None, arg_monthly_income = None,
       arg_annual_income = None, arg_monthly_expenses = None, arg_total_debts = None,
       arg_num_children = None, arg_education_goal_per_child = None,
       arg_existing_life_cover = None, arg_current_age = None, arg_retirement_age = None,
       arg_insurance_type = None, arg_reason = None \<rparr>"

definition metro_family :: ToolInput where
  \<comment> \<open>the payload \<open>{city_tier: "metro", family_members: [35, 32, 5], has_preexisting: false,
      corporate_cover: 0}\<close>\<close>
  "metro_family =
     no_args \<lparr> arg_city_tier := Some ''metro'', arg_family_members := Some [Fin 35, Fin 32, Fin 5],
               arg_has_preexisting := Some False, arg_corporate_cover := Some (Fin 0) \<rparr>"




subsection \<open>An engine and a request to run the chat route on\<close>

definition always_booking :: engine where
  \<comment> \<open>an engine that asks for the booking tool whatever it is sent\<close>
  "always_booking req =
     Inr \<lparr> content = [TextBlock ''Let me check.'',
                      ToolUseBlock ''call'' ''book_consultation'' no_args],
           stop_reason = Some ''tool_use'' \<rparr>"

definition demo_history :: "ConversationMessage list" where
  \<comment> \<open>twelve turns, numbered from 1\<close>
  "demo_history = map (\<lambda>k. \<lparr> msg_role = user, msg_content = string_of_nat k \<rparr>) [1..<13]"

definition demo_body :: ChatBody where
  "demo_body =
     \<lparr> body_message = Some ''claim bonus'', body_conversationHistory = Some demo_history,
       body_language = None \<rparr>"

section \<open>Properties of scoring and search\<close>

lemma str_includes_sublist: "str_includes s t \<longleftrightarrow> sublist t s"
  by (induction s) (auto simp: sublist_Cons_right)

lemma scoreMatch_foldl_aux:
  "foldl (\<lambda>score token.
           let score = (if list_ex (\<lambda>kw. str_includes kw token \<or> str_includes token kw) kws
                        then score + 3 else score)
           in if str_includes lt token then score + 1 else score) acc tokens
   = acc + sum_list (map (\<lambda>token. (if list_ex (\<lambda>kw. sublist token kw \<or> sublist kw token) kws then 3 else 0) +
     (if sublist token lt then 1 else (0::int))) tokens)"
  by (induction tokens arbitrary: acc) (auto simp: str_includes_sublist Let_def)

lemma scoreMatch_spec: "scoreMatch kws text tokens = spec_score kws text tokens"
  unfolding scoreMatch_def spec_score_def Let_def spec_token_points_def
  using scoreMatch_foldl_aux [of kws "toLowerCase text" 0 tokens] by (simp add: Let_def)

lemma spec_token_points_nonneg: "0 \<le> spec_token_points kws text t"
  by (simp add: spec_token_points_def)

lemma spec_score_nonneg: "0 \<le> spec_score kws text tokens"
  unfolding spec_score_def by (rule sum_list_nonneg) (auto simp: spec_token_points_nonneg)

lemma spec_score_append: "spec_score kws text (ts @ us) = spec_score kws text ts + spec_score kws text us"
  by (simp add: spec_score_def)

lemma spec_score_zero_iff:
  "spec_score kws text tokens = 0 \<longleftrightarrow> list_all (token_misses kws text) tokens"
proof (induction tokens)
  case Nil
  then show ?case by (simp add: spec_score_def)
next
  case (Cons t ts)
  have nn: "0 \<le> spec_score kws text ts" by (rule spec_score_nonneg)
  have pt: "0 \<le> spec_token_points kws text t" by (rule spec_token_points_nonneg)
  have z: "spec_token_points kws text t = 0 \<longleftrightarrow> token_misses kws text t"
    by (auto simp: spec_token_points_def token_misses_def)
  have "spec_score kws text (t # ts) = spec_token_points kws text t + spec_score kws text ts"
    by (simp add: spec_score_def)
  then show ?case using nn pt z Cons.IH by auto
qed

lemma insert_by_insort:
  fixes f :: "'a \<Rightarrow> int"
  shows "insert_by (\<lambda>a b. f b - f a) x xs = insort_key (\<lambda>y. - f y) x xs"
  by (induction xs) auto

lemma sort_by_sort_key:
  fixes f :: "'a \<Rightarrow> int"
  shows "sort_by (\<lambda>a b. f b - f a) xs = sort_key (\<lambda>y. - f y) xs"
proof -
  have "insert_by (\<lambda>a b. f b - f a) = insort_key (\<lambda>y. - f y)"
    by (intro ext) (rule insert_by_insort)
  then show ?thesis by (simp add: sort_by_def sort_key_def)
qed

lemma slice_zero_nonneg: "0 \<le> n \<Longrightarrow> slice xs 0 n = take (nat n) xs"
  by (auto simp: slice_def rel_index_def Let_def min_def)

lemma slice_zero_neg: "n < 0 \<Longrightarrow> slice xs 0 n = take (length xs - nat (- n)) xs"
  by (auto simp: slice_def rel_index_def Let_def max_def nat_diff_distrib' intro: arg_cong2 [where f = take])

lemma slice_zero_take: "\<exists>k. slice xs 0 n = take k xs"
  by (auto simp: slice_def rel_index_def Let_def)

lemma slice_from_drop: "0 < k \<Longrightarrow> slice_from xs (- int k) = drop (length xs - k) xs"
  by (auto simp: slice_from_def slice_def rel_index_def Let_def max_def nat_diff_distrib' intro: arg_cong2 [where f = drop])

text \<open>The pipeline shared by the three searches.\<close>

lemma insort_key_map:
  "insort_key g (h x) (map h xs) = map h (insort_key (\<lambda>a. g (h a)) x xs)"
  by (induction xs) auto

lemma sort_key_map: "sort_key g (map h xs) = map h (sort_key (\<lambda>a. g (h a)) xs)"
  by (induction xs) (auto simp: insort_key_map)

lemma ranked_eq:
  fixes f :: "'a \<Rightarrow> int"
  shows "map fst (slice (sort_by (\<lambda>a b. snd b - snd a) (filter (\<lambda>s. snd s > 0) (map (\<lambda>d. (d, f d)) ds))) 0 n)
    = slice (sort_key (\<lambda>d. - f d) (filter (\<lambda>d. 0 < f d) ds)) 0 n"
proof -
  have 1: "filter (\<lambda>s. snd s > 0) (map (\<lambda>d. (d, f d)) ds) = map (\<lambda>d. (d, f d)) (filter (\<lambda>d. 0 < f d) ds)"
    by (simp add: filter_map comp_def)
  have 2: "sort_by (\<lambda>a b. snd b - snd a) (map (\<lambda>d. (d, f d)) xs) = map (\<lambda>d. (d, f d)) (sort_key (\<lambda>d. - f d) xs)" for xs
    by (simp add: sort_by_sort_key sort_key_map comp_def)
  have 3: "map fst (slice (map (\<lambda>d. (d, f d)) xs) 0 n) = slice xs 0 n" for xs
    by (simp add: slice_def Let_def take_map drop_map comp_def)
  show ?thesis by (simp only: 1 2 3)
qed

lemma ranked_length: "0 \<le> n \<Longrightarrow> int (length (ranked f ds n)) \<le> n"
  by (simp add: ranked_def slice_zero_nonneg)

lemma ranked_set: "set (ranked f ds n) \<subseteq> {d \<in> set ds. 0 < f d}"
proof -
  obtain k where "ranked f ds n = take k (sort_key (\<lambda>d. - f d) (filter (\<lambda>d. 0 < f d) ds))"
    unfolding ranked_def using slice_zero_take by blast
  then show ?thesis using set_take_subset [of k "sort_key (\<lambda>d. - f d) (filter (\<lambda>d. 0 < f d) ds)"] by auto
qed

lemma ranked_sorted: "sorted_wrt (\<lambda>a b. f b \<le> f a) (ranked f ds n)"
proof -
  let ?s = "sort_key (\<lambda>d. - f d) (filter (\<lambda>d. 0 < f d) ds)"
  obtain k where k: "ranked f ds n = take k ?s"
    unfolding ranked_def using slice_zero_take by blast
  have "sorted (map (\<lambda>d. - f d) ?s)" by (rule sorted_sort_key)
  then have "sorted_wrt (\<lambda>a b. f b \<le> f a) ?s"
    by (simp add: sorted_wrt_map)
  then show ?thesis unfolding k by (rule sorted_wrt_take)
qed

lemma ranked_stable:
  "prefix (filter (\<lambda>d. f d = k) (ranked f ds n)) (filter (\<lambda>d. f d = k \<and> 0 < f d) ds)"
proof -
  let ?s = "sort_key (\<lambda>d. - f d) (filter (\<lambda>d. 0 < f d) ds)"
  obtain j where j: "ranked f ds n = take j ?s"
    unfolding ranked_def using slice_zero_take by blast
  have "filter (\<lambda>d. - f d = - k) ?s = filter (\<lambda>d. - f d = - k) (filter (\<lambda>d. 0 < f d) ds)"
    by (rule sort_key_stable)
  then have e: "filter (\<lambda>d. f d = k) ?s = filter (\<lambda>d. f d = k \<and> 0 < f d) ds"
    by (simp add: conj_commute)
  have "prefix (filter (\<lambda>d. f d = k) (take j ?s)) (filter (\<lambda>d. f d = k) ?s)"
    by (rule filter_mono_prefix) (rule take_is_prefix)
  then show ?thesis unfolding j e .
qed

lemma category_filter:
  "(case cat of None \<Rightarrow> ds | Some c \<Rightarrow> if c \<noteq> [] then filter (\<lambda>d. g d = c) ds else ds)
   = filter (\<lambda>d. category_ok cat (g d)) ds"
  by (cases cat) (auto simp: category_ok_def)

lemma searchArticles_ranked:
  "searchArticles kb q cat n =
   ranked (articleScore q) (filter (\<lambda>a. category_ok cat (article_category a)) (articles kb)) n"
  unfolding searchArticles_def Let_def category_filter ranked_def
  using ranked_eq [of "articleScore q"]
  by (simp add: articleScore_def articleText_def)

lemma insurer_filter:
  "(case ins of None \<Rightarrow> ds
    | Some i \<Rightarrow> if i \<noteq> [] then
          filter (\<lambda>p. str_includes (toLowerCase (policy_insurerName p)) (toLowerCase i) \<or>
                         str_includes (toLowerCase (policy_insurerId p)) (toLowerCase i)) ds
        else ds) = filter (insurer_ok ins) ds"
  by (cases ins) (auto simp: insurer_ok_def intro!: filter_cong)

lemma searchPolicies_ranked:
  "searchPolicies kb q cat ins n =
   ranked (policyScore q)
     (filter (\<lambda>p. category_ok cat (policy_category p) \<and> insurer_ok ins p) (policies kb)) n"
proof -
  let ?ds = "filter (insurer_ok ins) (filter (\<lambda>p. category_ok cat (policy_category p)) (policies kb))"
  have "searchPolicies kb q cat ins n =
        map fst (slice (sort_by (\<lambda>a b. snd b - snd a)
          (filter (\<lambda>s. snd s > 0) (map (\<lambda>d. (d, policyScore q d)) ?ds))) 0 n)"
    unfolding searchPolicies_def Let_def category_filter insurer_filter policyScore_def policyText_def ..
  also have "\<dots> = ranked (policyScore q) ?ds n"
    unfolding ranked_def by (rule ranked_eq)
  also have "?ds = filter (\<lambda>p. category_ok cat (policy_category p) \<and> insurer_ok ins p) (policies kb)"
    by simp
  finally show ?thesis .
qed

lemma searchClaimsGuides_ranked:
  "searchClaimsGuides kb q cat =
   ranked (guideScore q) (filter (\<lambda>g. category_ok cat (guide_category g)) (claimsGuides kb)) 3"
  unfolding searchClaimsGuides_def Let_def category_filter ranked_def
  using ranked_eq [of "guideScore q"]
  by (simp add: guideScore_def guideText_def)

lemma ranked_facts:
  assumes "0 \<le> n"
  shows "int (length (ranked f (filter P ds) n)) \<le> n \<and>
         (\<forall>d \<in> set (ranked f (filter P ds) n). 0 < f d) \<and>
         sorted_wrt (\<lambda>a b. f b \<le> f a) (ranked f (filter P ds) n) \<and>
         (\<forall>k. prefix (filter (\<lambda>d. f d = k) (ranked f (filter P ds) n))
                     (filter (\<lambda>d. f d = k \<and> P d) ds))"
proof (intro conjI allI)
  show "int (length (ranked f (filter P ds) n)) \<le> n" using assms by (rule ranked_length)
  show pos: "\<forall>d \<in> set (ranked f (filter P ds) n). 0 < f d" using ranked_set [of f "filter P ds" n] by auto
  show "sorted_wrt (\<lambda>a b. f b \<le> f a) (ranked f (filter P ds) n)" by (rule ranked_sorted)
  fix k
  show "prefix (filter (\<lambda>d. f d = k) (ranked f (filter P ds) n)) (filter (\<lambda>d. f d = k \<and> P d) ds)"
  proof (cases "0 < k")
    case True
    have "filter (\<lambda>d. f d = k \<and> 0 < f d) (filter P ds) = filter (\<lambda>d. f d = k \<and> P d) ds"
      using True by (auto intro: filter_cong)
    then show ?thesis using ranked_stable [of f k "filter P ds" n] by simp
  next
    case False
    then have "filter (\<lambda>d. f d = k) (ranked f (filter P ds) n) = []"
      using pos by (auto simp: filter_empty_conv)
    then show ?thesis by simp
  qed
qed

text \<open>
  C1. For a bound \<open>maxResults\<close> on the number of results, which is a count and so
  not negative, each of the three searches returns at most \<open>maxResults\<close> documents
  (the claims-guide search, whose bound is fixed, at most 3), every returned document
  has a score above 0, the scores do not increase along the result, and for every
  score \<open>k\<close> the returned documents of score
  \<open>k\<close> are an initial part of the documents of score \<open>k\<close> that pass the filters, in the
  order of the collection: ties keep their original order.
\<close>

theorem search_results_ranked:
  assumes "0 \<le> maxResults"
  shows
    "(int (length (searchArticles kb query category maxResults)) \<le> maxResults \<and>
      (\<forall>a \<in> set (searchArticles kb query category maxResults). 0 < articleScore query a) \<and>
      sorted_wrt (\<lambda>a b. articleScore query b \<le> articleScore query a)
        (searchArticles kb query category maxResults) \<and>
      (\<forall>k. prefix (filter (\<lambda>a. articleScore query a = k)
                       (searchArticles kb query category maxResults))
                   (filter (\<lambda>a. articleScore query a = k \<and>
                                 category_ok category (article_category a)) (articles kb)))) \<and>
     (int (length (searchPolicies kb query category insurerName maxResults)) \<le> maxResults \<and>
      (\<forall>p \<in> set (searchPolicies kb query category insurerName maxResults). 0 < policyScore query p) \<and>
      sorted_wrt (\<lambda>a b. policyScore query b \<le> policyScore query a)
        (searchPolicies kb query category insurerName maxResults) \<and>
      (\<forall>k. prefix (filter (\<lambda>p. policyScore query p = k)
                       (searchPolicies kb query category insurerName maxResults))
                   (filter (\<lambda>p. policyScore query p = k \<and>
                                 (category_ok category (policy_category p) \<and>
                                  insurer_ok insurerName p)) (policies kb)))) \<and>
     (length (searchClaimsGuides kb query category) \<le> 3 \<and>
      (\<forall>g \<in> set (searchClaimsGuides kb query category). 0 < guideScore query g) \<and>
      sorted_wrt (\<lambda>a b. guideScore query b \<le> guideScore query a)
        (searchClaimsGuides kb query category) \<and>
      (\<forall>k. prefix (filter (\<lambda>g. guideScore query g = k) (searchClaimsGuides kb query category))
                   (filter (\<lambda>g. guideScore query g = k \<and>
                                 category_ok category (guide_category g)) (claimsGuides kb))))"
proof (intro conjI)
  note a = ranked_facts [OF assms, of "articleScore query"
      "\<lambda>a. category_ok category (article_category a)" "articles kb",
      folded searchArticles_ranked]
  note p = ranked_facts [OF assms, of "policyScore query"
      "\<lambda>p. category_ok category (policy_category p) \<and> insurer_ok insurerName p" "policies kb",
      folded searchPolicies_ranked]
  have three: "(0::int) \<le> 3" by simp
  note g = ranked_facts [OF three, of "guideScore query"
      "\<lambda>g. category_ok category (guide_category g)" "claimsGuides kb",
      folded searchClaimsGuides_ranked]
  show "int (length (searchArticles kb query category maxResults)) \<le> maxResults"
    using a by blast
  show "\<forall>a \<in> set (searchArticles kb query category maxResults). 0 < articleScore query a"
    using a by blast
  show "sorted_wrt (\<lambda>a b. articleScore query b \<le> articleScore query a)
        (searchArticles kb query category maxResults)"
    using a by blast
  show "\<forall>k. prefix (filter (\<lambda>a. articleScore query a = k)
                       (searchArticles kb query category maxResults))
                   (filter (\<lambda>a. articleScore query a = k \<and>
                                 category_ok category (article_category a)) (articles kb))"
    using a by blast
  show "int (length (searchPolicies kb query category insurerName maxResults)) \<le> maxResults"
    using p by blast
  show "\<forall>p \<in> set (searchPolicies kb query category insurerName maxResults). 0 < policyScore query p"
    using p by blast
  show "sorted_wrt (\<lambda>a b. policyScore query b \<le> policyScore query a)
        (searchPolicies kb query category insurerName maxResults)"
    using p by blast
  show "\<forall>k. prefix (filter (\<lambda>p. policyScore query p = k)
                       (searchPolicies kb query category insurerName maxResults))
                   (filter (\<lambda>p. policyScore query p = k \<and>
                                 (category_ok category (policy_category p) \<and>
                                  insurer_ok insurerName p)) (policies kb))"
    using p by blast
  show "length (searchClaimsGuides kb query category) \<le> 3"
    using g by simp
  show "\<forall>g \<in> set (searchClaimsGuides kb query category). 0 < guideScore query g"
    using g by blast
  show "sorted_wrt (\<lambda>a b. guideScore query b \<le> guideScore query a)
        (searchClaimsGuides kb query category)"
    using g by blast
  show "\<forall>k. prefix (filter (\<lambda>g. guideScore query g = k) (searchClaimsGuides kb query category))
                   (filter (\<lambda>g. guideScore query g = k \<and>
                                 category_ok category (guide_category g)) (claimsGuides kb))"
    using g by blast
qed

text \<open>
  The theorem at the query \<open>claim bonus\<close> with bound 2: the scores are 8, 3, 4 and 4, and
  of the two articles that tie at 4 the earlier one is returned.
\<close>

theorem search_results_ranked_witness:
  "(0::int) \<le> 2 \<and>
   int (length (searchArticles demo_kb ''claim bonus'' None 2)) \<le> 2 \<and>
   searchArticles demo_kb ''claim bonus'' None 2 = [demo_a1, demo_a3] \<and>
   map (articleScore ''claim bonus'') (articles demo_kb) = [8, 3, 4, 4]"
proof -
  have h: "(0::int) \<le> 2" by simp
  have "int (length (searchArticles demo_kb ''claim bonus'' None 2)) \<le> 2"
    using search_results_ranked [OF h, of demo_kb "''claim bonus''" None None] by blast
  moreover have "searchArticles demo_kb ''claim bonus'' None 2 = [demo_a1, demo_a3]"
    by code_simp
  moreover have "map (articleScore ''claim bonus'') (articles demo_kb) = [8, 3, 4, 4]"
    by code_simp
  ultimately show ?thesis using h by simp
qed

text \<open>
  C2. The score that the loop of \<open>scoreMatch\<close> accumulates is the sum, over the query
  tokens, of 3 points when some keyword contains the token or is contained in it plus
  1 point when the lower-cased text contains the token. It is not negative, and it is
  additive over the token sequence: a repeated token counts again, and nothing is
  normalised.
\<close>

theorem scoreMatch_token_sum:
  "scoreMatch itemKeywords itemText queryTokens = spec_score itemKeywords itemText queryTokens \<and>
   0 \<le> scoreMatch itemKeywords itemText queryTokens \<and>
   scoreMatch itemKeywords itemText (queryTokens @ moreTokens) =
     scoreMatch itemKeywords itemText queryTokens + scoreMatch itemKeywords itemText moreTokens"
  by (simp add: scoreMatch_spec spec_score_nonneg spec_score_append)

text \<open>The score of a token list with a repeated token and a token that misses.\<close>

theorem scoreMatch_token_sum_witness:
  "scoreMatch [''no claim bonus'', ''ncb''] ''No Claim Bonus'' [''claim'', ''claim'', ''xyz''] = 8 \<and>
   spec_score [''no claim bonus'', ''ncb''] ''No Claim Bonus'' [''claim'', ''claim'', ''xyz''] = 8"
proof -
  have "scoreMatch [''no claim bonus'', ''ncb''] ''No Claim Bonus'' [''claim'', ''claim'', ''xyz''] = 8"
    by code_simp
  then show ?thesis
    using scoreMatch_token_sum [of "[''no claim bonus'', ''ncb'']" "''No Claim Bonus''"
        "[''claim'', ''claim'', ''xyz'']" "[]"]
    by simp
qed

text \<open>A token is longer than two characters and made of \<open>a\<close> to \<open>z\<close> and digits.\<close>

lemma split_ws_pieces:
  "p \<in> set (split_ws s) \<Longrightarrow> c \<in> set p \<Longrightarrow> c \<in> set s \<and> \<not> isSpace c"
proof (induction s arbitrary: p rule: split_ws.induct)
  case (1 s)
  let ?piece = "takeWhile (\<lambda>c. \<not> isSpace c) s"
  let ?rest = "dropWhile (\<lambda>c. \<not> isSpace c) s"
  have head: "c \<in> set ?piece \<Longrightarrow> c \<in> set s \<and> \<not> isSpace c"
    by (auto dest: set_takeWhileD)
  show ?case
  proof (cases "?rest = []")
    case True
    then have "split_ws s = [?piece]"
      by (subst split_ws.simps) (simp only: Let_def simp_thms if_True)
    with "1.prems" head show ?thesis by simp
  next
    case False
    then have e: "split_ws s = ?piece # split_ws (dropWhile isSpace ?rest)"
      by (subst split_ws.simps) (simp only: Let_def if_False)
    show ?thesis
    proof (cases "p = ?piece")
      case True
      with "1.prems" head show ?thesis by simp
    next
      case np: False
      with "1.prems" e have "p \<in> set (split_ws (dropWhile isSpace ?rest))" by simp
      from "1.IH" [OF refl refl False this "1.prems"(2)]
      have "c \<in> set (dropWhile isSpace ?rest) \<and> \<not> isSpace c" .
      then show ?thesis by (auto dest!: set_dropWhileD)
    qed
  qed
qed

lemma tokenize_tokens:
  assumes "t \<in> set (tokenize query)"
  shows "2 < length t \<and> list_all isLowerAlnum t"
proof -
  let ?s = "map (\<lambda>c. if isLowerAlnum c \<or> isSpace c then c else CHR 0x20) (toLowerCase query)"
  from assms have p: "t \<in> set (split_ws ?s)" and l: "2 < length t"
    by (simp_all add: tokenize_def)
  have sp: "isSpace (CHR 0x20)" by (simp add: isSpace_def)
  have "isLowerAlnum c" if "c \<in> set t" for c
  proof -
    note q = split_ws_pieces [OF p that]
    from q have cs: "c \<in> set ?s" by (rule conjunct1)
    from q have ns: "\<not> isSpace c" by (rule conjunct2)
    from cs [unfolded set_map] obtain d
      where d: "c = (if isLowerAlnum d \<or> isSpace d then d else CHR 0x20)"
      by (rule imageE)
    show ?thesis
    proof (cases "isLowerAlnum d \<or> isSpace d")
      case True
      with d have "c = d" by simp
      with True ns show ?thesis by blast
    next
      case False
      with d have "c = CHR 0x20" by simp
      with sp ns show ?thesis by simp
    qed
  qed
  then show ?thesis using l by (simp add: list_all_iff)
qed

lemma scoreMatch_zero: "no_token_matches kws text q \<Longrightarrow> scoreMatch kws text (tokenize q) = 0"
  by (simp add: scoreMatch_spec spec_score_zero_iff no_token_matches_def)

lemma ranked_excludes: "f d = 0 \<Longrightarrow> d \<notin> set (ranked f ds n)"
  using ranked_set [of f ds n] by auto

lemma unmatched_article:
  assumes "no_token_matches (article_keywords a) (articleText a) query"
  shows "articleScore query a = 0 \<and> a \<notin> set (searchArticles kb query category maxResults)"
proof -
  have z: "articleScore query a = 0"
    using assms by (simp add: articleScore_def scoreMatch_zero)
  then show ?thesis unfolding searchArticles_ranked using ranked_excludes by fastforce
qed

lemma unmatched_policy:
  assumes "no_token_matches (policy_keywords p) (policyText p) query"
  shows "policyScore query p = 0 \<and>
         p \<notin> set (searchPolicies kb query category insurerName maxResults)"
proof -
  have z: "policyScore query p = 0"
    using assms by (simp add: policyScore_def scoreMatch_zero)
  then show ?thesis unfolding searchPolicies_ranked using ranked_excludes by fastforce
qed

lemma unmatched_guide:
  assumes "no_token_matches (guide_keywords g) (guideText g) query"
  shows "guideScore query g = 0 \<and> g \<notin> set (searchClaimsGuides kb query category)"
proof -
  have z: "guideScore query g = 0"
    using assms by (simp add: guideScore_def scoreMatch_zero)
  then show ?thesis unfolding searchClaimsGuides_ranked using ranked_excludes by fastforce
qed

text \<open>
  C3, as amended. When no token of the query's tokenization contains a keyword of the
  document or occurs in one, and none occurs in the document's lower-cased text, the
  document's score is 0 and no search returns it. Every token of the tokenization is
  longer than two characters and consists of the letters \<open>a\<close> to \<open>z\<close> and digits.
\<close>

theorem unmatched_document_excluded:
  "(no_token_matches (article_keywords a) (articleText a) query \<longrightarrow>
      articleScore query a = 0 \<and> a \<notin> set (searchArticles kb query category maxResults)) \<and>
   (no_token_matches (policy_keywords p) (policyText p) query \<longrightarrow>
      policyScore query p = 0 \<and>
      p \<notin> set (searchPolicies kb query category insurerName maxResults)) \<and>
   (no_token_matches (guide_keywords g) (guideText g) query \<longrightarrow>
      guideScore query g = 0 \<and> g \<notin> set (searchClaimsGuides kb query category)) \<and>
   (\<forall>t \<in> set (tokenize query). 2 < length t \<and> list_all isLowerAlnum t)"
  using unmatched_article unmatched_policy unmatched_guide tokenize_tokens by blast

text \<open>An article that the query \<open>claims\<close> misses, and the one article it returns.\<close>

theorem unmatched_document_excluded_witness:
  "no_token_matches (article_keywords demo_a3) (articleText demo_a3) ''claims'' \<and>
   articleScore ''claims'' demo_a3 = 0 \<and>
   searchArticles demo_kb ''claims'' None 3 = [demo_a2]"
proof -
  have h: "no_token_matches (article_keywords demo_a3) (articleText demo_a3) ''claims''"
    by code_simp
  have "articleScore ''claims'' demo_a3 = 0"
    using unmatched_document_excluded [of demo_a3 "''claims''" demo_kb None 3] h by blast
  moreover have "searchArticles demo_kb ''claims'' None 3 = [demo_a2]"
    by code_simp
  ultimately show ?thesis using h by simp
qed

text \<open>
  C3 as stated fails: the token \<open>claims\<close> occurs in no keyword of the second article
  and not in its text, yet the keyword \<open>claim\<close> occurs in the token, so the article
  scores 3 and is returned.
\<close>

theorem token_containing_keyword_counterexample:
  "no_token_occurs (article_keywords demo_a2) (articleText demo_a2) ''claims'' \<and>
   articleScore ''claims'' demo_a2 = 3 \<and>
   demo_a2 \<in> set (searchArticles demo_kb ''claims'' None 3)"
proof -
  have "no_token_occurs (article_keywords demo_a2) (articleText demo_a2) ''claims''"
    by code_simp
  moreover have "articleScore ''claims'' demo_a2 = 3"
    by code_simp
  moreover have "searchArticles demo_kb ''claims'' None 3 = [demo_a2]"
    by code_simp
  ultimately show ?thesis by simp
qed

lemma foldl_push: "foldl (\<lambda>parts x. parts @ [g x]) init xs = init @ map g xs"
  by (induction xs arbitrary: init) auto

lemma slice_two: "slice xs 0 2 = take 2 xs"
  using slice_zero_nonneg [of 2 xs] by simp

lemma buildContext_spec: "buildContext kb query = spec_context kb query"
  unfolding buildContext_def spec_context_def Let_def
    spec_article_section_def spec_policy_section_def spec_claims_section_def
  by (simp add: foldl_push slice_two substring0_def)

text \<open>
  C6. The context block is the join of the article section, the policy section and the
  claims section, in this order, over the hits of the three searches with the caps 2,
  3 and 3; a section without hits is empty, header included; an article gives its
  first two chunks, a policy its summary, a claims guide the first 1500 characters of
  its content.
\<close>

theorem buildContext_sections:
  "buildContext kb query = spec_context kb query \<and>
   length (searchArticles kb query None 2) \<le> 2 \<and>
   length (searchPolicies kb query None None 3) \<le> 3 \<and>
   length (searchClaimsGuides kb query None) \<le> 3"
proof -
  have two: "(0::int) \<le> 2" and three: "(0::int) \<le> 3" by simp_all
  have "length (searchArticles kb query None 2) \<le> 2"
    unfolding searchArticles_ranked using ranked_length [OF two] by (metis of_nat_le_iff of_nat_numeral)
  moreover have "length (searchPolicies kb query None None 3) \<le> 3"
    unfolding searchPolicies_ranked using ranked_length [OF three] by (metis of_nat_le_iff of_nat_numeral)
  moreover have "length (searchClaimsGuides kb query None) \<le> 3"
    unfolding searchClaimsGuides_ranked using ranked_length [OF three] by (metis of_nat_le_iff of_nat_numeral)
  ultimately show ?thesis using buildContext_spec by simp
qed

text \<open>The block of a query that only a claims guide matches, and one with all three sections.\<close>

theorem buildContext_sections_witness:
  "buildContext demo_kb ''cashless'' =
     NL @ ''=== CLAIMS GUIDANCE ==='' @ NL @ NL @ ''--- Cashless claim steps ---'' @ NL @
     ''Tell the insurer before admission.'' \<and>
   buildContext demo_kb ''claim bonus'' =
     ''=== RELEVANT ARTICLES ==='' @ NL @ NL @
     ''--- No Claim Bonus explained (health-insurance) ---'' @ NL @
     ''A no claim bonus rewards claim free years.'' @ NL @ NL @ ''It grows the cover.'' @ NL @ NL @
     ''--- Bonus basics (health-insurance) ---'' @ NL @ ''Loyalty pays.'' @ NL @ NL @
     ''=== RELEVANT POLICIES ==='' @ NL @ NL @ ''--- Care Supreme by Care Health ---'' @ NL @
     ''Cover with a bonus on renewal.'' @ NL @ NL @
     ''=== CLAIMS GUIDANCE ==='' @ NL @ NL @ ''--- Cashless claim steps ---'' @ NL @
     ''Tell the insurer before admission.''"
proof -
  have "spec_context demo_kb ''cashless'' =
     NL @ ''=== CLAIMS GUIDANCE ==='' @ NL @ NL @ ''--- Cashless claim steps ---'' @ NL @
     ''Tell the insurer before admission.''"
    by code_simp
  moreover have "spec_context demo_kb ''claim bonus'' =
     ''=== RELEVANT ARTICLES ==='' @ NL @ NL @
     ''--- No Claim Bonus explained (health-insurance) ---'' @ NL @
     ''A no claim bonus rewards claim free years.'' @ NL @ NL @ ''It grows the cover.'' @ NL @ NL @
     ''--- Bonus basics (health-insurance) ---'' @ NL @ ''Loyalty pays.'' @ NL @ NL @
     ''=== RELEVANT POLICIES ==='' @ NL @ NL @ ''--- Care Supreme by Care Health ---'' @ NL @
     ''Cover with a bonus on renewal.'' @ NL @ NL @
     ''=== CLAIMS GUIDANCE ==='' @ NL @ NL @ ''--- Cashless claim steps ---'' @ NL @
     ''Tell the insurer before admission.''"
    by code_simp
  ultimately show ?thesis
    using buildContext_sections [of demo_kb "''cashless''"]
      buildContext_sections [of demo_kb "''claim bonus''"] by simp
qed

section \<open>Properties of the dispatch and the calculators\<close>

text \<open>
  C5. For a name that the catalogue does not hold and any payload, the dispatch
  returns the text \<open>Unknown tool:\<close> followed by the name: it does not throw, and it
  answers.
\<close>

theorem unknown_tool_reported:
  "toolName \<notin> set (map tool_name TOOLS) \<Longrightarrow>
   executeTool kb env toolName toolInput = Inr (Text (''Unknown tool: '' @ toolName))"
  by (simp add: executeTool_def TOOLS_def)

text \<open>A name outside the catalogue, on the empty payload.\<close>

theorem unknown_tool_reported_witness:
  "''get_weather'' \<notin> set (map tool_name TOOLS) \<and>
   executeTool demo_kb demo_env ''get_weather'' no_args = Inr (Text ''Unknown tool: get_weather'')"
proof -
  have h: "''get_weather'' \<notin> set (map tool_name TOOLS)" by (simp add: TOOLS_def)
  show ?thesis
    using h unknown_tool_reported [OF h, of demo_kb demo_env no_args] by simp
qed

subsection \<open>Rounding\<close>










text \<open>
  The rounding of \<open>x\<close> with \<open>2\<^sup>n \<le> x < 2\<^sup>n\<^sup>+\<^sup>1\<close> is the multiple \<open>m\<close> of \<open>2\<^sup>n\<^sup>-\<^sup>5\<^sup>2\<close> that is less than
  half a step away from \<open>x\<close>; a number from \<open>2\<^sup>1\<^sup>0\<^sup>2\<^sup>4\<close> on rounds to infinity. These two
  rules evaluate \<open>round64\<close> on numbers of many digits.
\<close>

lemma bitlen_eq:
  assumes "2 ^ n \<le> k" and "k < 2 * 2 ^ n"
  shows "bitlen k = int n + 1"
proof -
  have "bitlen k \<le> int n + 1"
    using assms(2) by (simp add: bitlen_le_iff_power nat_add_distrib)
  moreover have "int n + 1 \<le> bitlen k"
    using assms(1) by (simp add: bitlen_ge_iff_power nat_add_distrib)
  ultimately show ?thesis by simp
qed

lemma ilog2_nat:
  assumes "2 ^ n \<le> x" and "x < 2 * 2 ^ n"
  shows "ilog2 x = int n"
proof -
  have "(1::rat) \<le> 2 ^ n" by simp
  then have x1: "1 \<le> x" using assms(1) by (rule order_trans)
  have "rat_of_int (2 ^ n) \<le> x" using assms(1) by simp
  then have a: "2 ^ n \<le> \<lfloor>x\<rfloor>" by (simp only: le_floor_iff)
  have "x < rat_of_int (2 * 2 ^ n)" using assms(2) by simp
  then have b: "\<lfloor>x\<rfloor> < 2 * 2 ^ n" by (simp only: floor_less_iff)
  show ?thesis using x1 bitlen_eq [OF a b] by (simp add: ilog2_def)
qed

lemma pow2_diff: "pow2 (int n - int k) = 2 ^ n / 2 ^ k"
proof (cases "k \<le> n")
  case True
  then obtain d where "n = k + d" using le_Suc_ex by blast
  then show ?thesis by (simp add: pow2_def power_add)
next
  case False
  then obtain d where d: "k = n + d" by (metis le_Suc_ex nat_le_linear)
  with False have "0 < d" by simp
  then show ?thesis by (simp add: pow2_def power_add d)
qed

lemma pow2_nat_52: "pow2 (int n - 52) = 2 ^ n / 2 ^ 52"
  using pow2_diff [of n 52] by (simp only: of_nat_numeral)

lemma round_half_even_near:
  assumes "rat_of_int m - 1 / 2 < y" and "y < rat_of_int m + 1 / 2"
  shows "round_half_even y = m"
proof (cases "rat_of_int m \<le> y")
  case True
  then have f: "\<lfloor>y\<rfloor> = m" using assms(2) by (simp add: floor_eq_iff)
  show ?thesis using assms(2) by (simp add: round_half_even_def Let_def f)
next
  case False
  then have f: "\<lfloor>y\<rfloor> = m - 1" using assms(1) by (simp add: floor_eq_iff)
  show ?thesis using assms(1) by (simp add: round_half_even_def Let_def f)
qed

lemma round64_normal:
  assumes "2 ^ n \<le> x" and "x < 2 * 2 ^ n" and "n \<le> 1023"
    and "rat_of_int m - 1 / 2 < x * 2 ^ 52 / 2 ^ n"
    and "x * 2 ^ 52 / 2 ^ n < rat_of_int m + 1 / 2"
    and "m < 2 ^ 53"
  shows "round64 x = Fin (rat_of_int m * 2 ^ n / 2 ^ 52)"
proof -
  have x0: "0 < x" using assms(1) by (rule less_le_trans [rotated]) simp
  have e: "max (ilog2 x) (- 1022) = int n"
    using ilog2_nat [OF assms(1,2)] by simp
  have y: "x / pow2 (int n - 52) = x * 2 ^ 52 / 2 ^ n"
    by (simp only: pow2_nat_52) simp
  have m: "round_half_even (x / pow2 (int n - 52)) = m"
    unfolding y using assms(4,5) by (rule round_half_even_near)
  have "round64 x = Fin (pow2 (int n - 52) * rat_of_int m)"
    using x0 assms(3,6) by (simp add: round64_def e m Let_def)
  then show ?thesis by (simp only: pow2_nat_52) simp
qed


subsection \<open>The health calculator\<close>

text \<open>\<open>Math.pow(1.1, 10)\<close>, where \<open>1.1\<close> is the sum \<open>1 + 0.10\<close> as the source computes it.\<close>

lemma pow_11: "Math_pow (Fin (2476979795053773 / 2251799813685248)) 10 = Fin (2920294394200351 / 1125899906842624)"
proof -
  have "round64 ((2476979795053773 / 2251799813685248) ^ 10) =
        Fin (rat_of_int 5840588788400702 * 2 ^ 1 / 2 ^ 52)"
    by (rule round64_normal) (simp_all add: power_divide)
  then show ?thesis by simp
qed

text \<open>
  The health calculator on the family of the round-trip example, step by step as the
  source computes it: the need is \<open>4344615225746677 / 2\<^sup>3\<^sup>1\<close>, about 2023119.12.
\<close>

lemma health_metro_family:
  "calculateHealthCoverage
     \<lparr> city_tier = ''metro'', family_members = [Fin 35, Fin 32, Fin 5], has_preexisting = False,
       corporate_cover = Fin 0, monthly_income = Fin 0 \<rparr> =
   \<lparr> recommended_cover_lakhs = Fin 25, base_plan_lakhs = Fin 25, super_topup_lakhs = Fin 0,
     coverage_gap_lakhs = Fin 25, health_premium_min = Fin 16000,
     health_premium_max = Fin 24000,
     health_reasoning =
       [BaseCostNote ''metro'' (Fin (15 / 2)),
        AgeRiskNote ''young'' (Fin 35) (Fin (3602879701896397 / 4503599627370496)),
        ProjectedNote (Fin 10) (Fin (8760883182601053 / 562949953421312)),
        FamilySizeNote 3 (Fin (5854679515581645 / 4503599627370496)),
        SinglePlanNote (Fin 25)] \<rparr>"
proof -
  have s1: "or_lookup CITY_MULTIPLIERS ''metro'' (lit 1.0) = Fin (3 / 2)" by code_simp
  have s2: "fmul BASE_HOSPITAL_COST (Fin (3 / 2)) = Fin 750000" by code_simp
  have s3: "fdiv (Fin 750000) (Fin 100000) = Fin (15 / 2)" by code_simp
  have s4: "Math_max [Fin 35, Fin 32, Fin 5] = Fin 35" by code_simp
  have s5: "getAgeGroup (Fin 35) = ''young''" by code_simp
  have s6: "or_lookup AGE_RISK_FACTOR ''young'' (lit 1.0) = Fin (3602879701896397 / 4503599627370496)"
    by code_simp
  have s7: "fmul (Fin 750000) (Fin (3602879701896397 / 4503599627370496)) = Fin 600000"
    by code_simp
  have s8: "fadd (Fin 1) MEDICAL_INFLATION = Fin (2476979795053773 / 2251799813685248)"
    by code_simp
  have s9: "fmul (Fin 600000) (Fin (2920294394200351 / 1125899906842624)) =
            Fin (6684023424225657 / 4294967296)"
    by code_simp
  have s10: "fmul MEDICAL_INFLATION (Fin 100) = Fin 10" by code_simp
  have s11: "fdiv (Fin (6684023424225657 / 4294967296)) (Fin 100000) =
             Fin (8760883182601053 / 562949953421312)"
    by code_simp
  have s12: "length [Fin 35, Fin 32, Fin 5] = 3" by simp
  have s13: "fadd (Fin 1) (fmul (fsub (Fin (rat_of_nat 3)) (Fin 1)) (lit 0.15)) =
             Fin (5854679515581645 / 4503599627370496)"
    by code_simp
  have s14: "fmul (Fin (6684023424225657 / 4294967296)) (Fin (5854679515581645 / 4503599627370496)) =
             Fin (4344615225746677 / 2147483648)"
    by code_simp
  have s15: "fmul (Math_ceil (fdiv (Fin (4344615225746677 / 2147483648)) (Fin 500000))) (Fin 5) = Fin 25"
    by code_simp
  have s16: "or_num (Fin 0) (Fin 0) = Fin 0" by code_simp
  have s17: "Math_max2 (Fin 0) (fsub (Fin 25) (Fin 0)) = Fin 25" by code_simp
  have s18: "num_lt (Fin 0) (Fin 0) = False" by simp
  have s19: "Math_min2 (Fin 25) (Fin 25) = Fin 25" by code_simp
  have s20: "Math_max2 (Fin 0) (fsub (Fin 25) (Fin 25)) = Fin 0" by code_simp
  have s21: "num_lt (Fin 25) (Fin 25) = False" by simp
  have s22: "fmul (fmul (Fin 25) (Fin 800)) (Fin (3602879701896397 / 4503599627370496)) = Fin 16000"
    by code_simp
  have s23: "fmul (Fin 16000) (lit 1.5) = Fin 24000" by code_simp
  have s24: "Math_round (Fin 16000) = Fin 16000" "Math_round (Fin 24000) = Fin 24000"
    by code_simp+
  show ?thesis
    unfolding calculateHealthCoverage_def Let_def
    apply (simp only: HealthCalcInput.simps s1 s2 s3 s4 s5 s6 s7 s8 pow_11 s9 s10 s11 s12 s13 s14 s15
        s16 s17 s18 s19 s20 s21 s22 s23 s24 if_False prod.case append.simps)
    done
qed

lemma executeTool_health:
  "executeTool kb env ''calculate_health_coverage'' toolInput =
   Inr (HealthJSON (calculateHealthCoverage
     \<lparr> city_tier = undefined_or_str (arg_city_tier toolInput) ''metro'',
       family_members = undefined_or_array (arg_family_members toolInput) [Fin 30],
       has_preexisting = undefined_or_bool (arg_has_preexisting toolInput) False,
       corporate_cover = undefined_or_num (arg_corporate_cover toolInput) (Fin 0),
       monthly_income = undefined_or_num (arg_monthly_income toolInput) (Fin 0) \<rparr>))"
  by (simp add: executeTool_def)

text \<open>
  C7. The health-coverage tool on \<open>city_tier = "metro"\<close>, \<open>family_members = [35, 32, 5]\<close>,
  \<open>has_preexisting = false\<close>, \<open>corporate_cover = 0\<close> returns a recommended cover of 25
  lakhs, a positive multiple of 5, and a base plan of 25 lakhs, which is at most 25.
\<close>

theorem health_cover_metro_family:
  "\<exists>r. executeTool kb env ''calculate_health_coverage'' metro_family = Inr (HealthJSON r) \<and>
       recommended_cover_lakhs r = Fin 25 \<and> num_lt (Fin 0) (recommended_cover_lakhs r) \<and>
       (\<exists>k::nat. recommended_cover_lakhs r = Fin (5 * rat_of_nat k)) \<and>
       base_plan_lakhs r = Fin 25 \<and> num_le (base_plan_lakhs r) (Fin 25)"
proof -
  define r where "r = calculateHealthCoverage
     \<lparr> city_tier = ''metro'', family_members = [Fin 35, Fin 32, Fin 5], has_preexisting = False,
       corporate_cover = Fin 0, monthly_income = Fin 0 \<rparr>"
  have e: "executeTool kb env ''calculate_health_coverage'' metro_family = Inr (HealthJSON r)"
    unfolding executeTool_health r_def
    by (simp add: metro_family_def no_args_def undefined_or_str_def
        undefined_or_array_def undefined_or_bool_def undefined_or_num_def or_num_def)
  have c: "recommended_cover_lakhs r = Fin 25" and b: "base_plan_lakhs r = Fin 25"
    unfolding r_def health_metro_family by simp_all
  have m: "\<exists>k::nat. Fin 25 = Fin (5 * rat_of_nat k)"
    by (rule exI [of _ 5]) simp
  show ?thesis
    by (rule exI [of _ r]) (simp add: e c b m num_le_def)
qed



subsection \<open>The term calculator\<close>























section \<open>Properties of the chat route\<close>

lemma LoopState_updates:
  "(st :: LoopState)\<lparr> iterations := i, messages := m, response := r \<rparr> =
   \<lparr> response = r, iterations = i, messages = m \<rparr>"
  by (cases st) simp

lemma tool_loop_unfold:
  "tool_loop engine kb env sys st =
     (if stop_reason (response st) = Some ''tool_use'' \<and> iterations st < maxIterations then
        (case run_tools kb env (response st) of
           Inl e \<Rightarrow> Thrown e (st\<lparr> iterations := iterations st + 1 \<rparr>)
         | Inr toolResults \<Rightarrow>
             (case engine (create_params sys (next_messages st toolResults)) of
                Inl e \<Rightarrow> Thrown e (st\<lparr> iterations := iterations st + 1,
                                        messages := next_messages st toolResults \<rparr>)
              | Inr r \<Rightarrow> tool_loop engine kb env sys
                          \<lparr> response = r, iterations = iterations st + 1,
                            messages = next_messages st toolResults \<rparr>))
      else Returned st)"
  by (subst tool_loop.simps)
     (simp add: Let_def run_tools_def next_messages_def LoopState_updates split: sum.splits)

lemma tool_loop_induct [consumes 0, case_names stop throw_tool throw_engine step]:
  assumes "\<And>st. \<not> (stop_reason (response st) = Some ''tool_use'' \<and> iterations st < maxIterations) \<Longrightarrow> P st"
    and "\<And>st e. stop_reason (response st) = Some ''tool_use'' \<Longrightarrow> iterations st < maxIterations \<Longrightarrow>
           run_tools kb env (response st) = Inl e \<Longrightarrow> P st"
    and "\<And>st rs e. stop_reason (response st) = Some ''tool_use'' \<Longrightarrow> iterations st < maxIterations \<Longrightarrow>
           run_tools kb env (response st) = Inr rs \<Longrightarrow>
           engine (create_params sys (next_messages st rs)) = Inl e \<Longrightarrow> P st"
    and "\<And>st rs r. stop_reason (response st) = Some ''tool_use'' \<Longrightarrow> iterations st < maxIterations \<Longrightarrow>
           run_tools kb env (response st) = Inr rs \<Longrightarrow>
           engine (create_params sys (next_messages st rs)) = Inr r \<Longrightarrow>
           P \<lparr> response = r, iterations = iterations st + 1, messages = next_messages st rs \<rparr> \<Longrightarrow> P st"
  shows "P (st :: LoopState)"
proof (induction "maxIterations - iterations st" arbitrary: st rule: less_induct)
  case less
  show ?case
  proof (cases "stop_reason (response st) = Some ''tool_use'' \<and> iterations st < maxIterations")
    case False
    then show ?thesis by (rule assms(1))
  next
    case True
    then have c: "stop_reason (response st) = Some ''tool_use''" and i: "iterations st < maxIterations"
      by simp_all
    show ?thesis
    proof (cases "run_tools kb env (response st)")
      case (Inl e)
      with c i show ?thesis by (rule assms(2))
    next
      case (Inr rs)
      show ?thesis
      proof (cases "engine (create_params sys (next_messages st rs))")
        case (Inl e)
        with c i Inr show ?thesis by (rule assms(3))
      next
        case r: (Inr r)
        let ?st = "\<lparr> response = r, iterations = iterations st + 1, messages = next_messages st rs \<rparr>"
        have "maxIterations - iterations ?st < maxIterations - iterations st" using i by simp
        then have "P ?st" by (rule less)
        with c i Inr r show ?thesis by (rule assms(4))
      qed
    qed
  qed
qed

lemma tool_loop_stop:
  assumes "\<not> (stop_reason (response st) = Some ''tool_use'' \<and> iterations st < maxIterations)"
  shows "tool_loop engine kb env sys st = Returned st"
  by (subst tool_loop_unfold) (simp only: assms if_False)

lemma tool_loop_throw_tool:
  "stop_reason (response st) = Some ''tool_use'' \<Longrightarrow> iterations st < maxIterations \<Longrightarrow>
   run_tools kb env (response st) = Inl e \<Longrightarrow>
   tool_loop engine kb env sys st = Thrown e (st\<lparr> iterations := iterations st + 1 \<rparr>)"
  by (subst tool_loop_unfold) simp

lemma tool_loop_throw_engine:
  "stop_reason (response st) = Some ''tool_use'' \<Longrightarrow> iterations st < maxIterations \<Longrightarrow>
   run_tools kb env (response st) = Inr rs \<Longrightarrow>
   engine (create_params sys (next_messages st rs)) = Inl e \<Longrightarrow>
   tool_loop engine kb env sys st =
   Thrown e (st\<lparr> iterations := iterations st + 1, messages := next_messages st rs \<rparr>)"
  by (subst tool_loop_unfold) simp

lemma tool_loop_step:
  "stop_reason (response st) = Some ''tool_use'' \<Longrightarrow> iterations st < maxIterations \<Longrightarrow>
   run_tools kb env (response st) = Inr rs \<Longrightarrow>
   engine (create_params sys (next_messages st rs)) = Inr r \<Longrightarrow>
   tool_loop engine kb env sys st =
   tool_loop engine kb env sys
     \<lparr> response = r, iterations = iterations st + 1, messages = next_messages st rs \<rparr>"
  by (subst tool_loop_unfold) simp

lemma tool_loop_cap:
  "iterations (final_state (tool_loop engine kb env sys st)) \<le> max (iterations st) maxIterations"
proof (induction st rule: tool_loop_induct [where kb = kb and env = env and engine = engine and sys = sys])
  case (stop st)
  then show ?case by (simp add: tool_loop_stop)
next
  case (throw_tool st e)
  then show ?case by (simp add: tool_loop_throw_tool)
next
  case (throw_engine st rs e)
  then show ?case by (simp add: tool_loop_throw_engine)
next
  case (step st rs r)
  then show ?case by (simp add: tool_loop_step)
qed

lemma tool_loop_returned:
  assumes "tool_loop engine kb env sys st = Returned st'"
  shows "iterations st \<le> iterations st' \<and>
         length (messages st') = length (messages st) + 2 * (iterations st' - iterations st) \<and>
         \<not> (stop_reason (response st') = Some ''tool_use'' \<and> iterations st' < maxIterations) \<and>
         (iterations st' = iterations st \<longrightarrow> st' = st) \<and>
         (iterations st < iterations st' \<longrightarrow>
            engine (create_params sys (messages st')) = Inr (response st'))"
  using assms
proof (induction st rule: tool_loop_induct [where kb = kb and env = env and engine = engine and sys = sys])
  case (stop st)
  then have "st' = st" by (simp add: tool_loop_stop)
  with stop.hyps show ?case by simp
next
  case (throw_tool st e)
  then show ?case by (simp add: tool_loop_throw_tool)
next
  case (throw_engine st rs e)
  then show ?case by (simp add: tool_loop_throw_engine)
next
  case (step st rs r)
  let ?st = "\<lparr> response = r, iterations = iterations st + 1, messages = next_messages st rs \<rparr>"
  from step.prems step.hyps have "tool_loop engine kb env sys ?st = Returned st'"
    by (simp add: tool_loop_step)
  note ih = step.IH [OF this]
  have len: "length (messages ?st) = length (messages st) + 2"
    by (simp add: next_messages_def)
  have e: "engine (create_params sys (messages ?st)) = Inr (response ?st)"
    using step.hyps by simp
  have it: "iterations ?st = iterations st + 1" by simp
  show ?case
  proof (cases "iterations ?st < iterations st'")
    case True
    with ih len it show ?thesis by (simp del: LoopState.select_convs) 
  next
    case False
    with ih have "iterations st' = iterations ?st" by linarith
    with ih have "st' = ?st" by blast
    with ih len e it show ?thesis by (simp del: LoopState.select_convs)
  qed
qed

lemma run_tools_ok:
  assumes "dispatch_ok kb env m"
  shows "\<exists>rs. run_tools kb env m = Inr rs"
proof -
  have "list_all (\<lambda>(i, n, inp). case executeTool kb env n inp of Inl e \<Rightarrow> False | Inr out \<Rightarrow> True) xs \<Longrightarrow>
        \<exists>rs. map_throw (\<lambda>(i, n, inp).
                 case executeTool kb env n inp of
                   Inl e \<Rightarrow> Inl e
                 | Inr out \<Rightarrow> Inr \<lparr> tool_use_id = i, result_content = out \<rparr>) xs = Inr rs" for xs
    by (induction xs) (auto split: sum.splits prod.splits)
  then show ?thesis using assms by (simp add: dispatch_ok_def run_tools_def)
qed

lemma tool_loop_all_rounds:
  assumes always: "\<And>req. \<exists>m. engine req = Inr m \<and> dispatch_ok kb env m"
    and ok: "dispatch_ok kb env (response st)"
    and le: "iterations st \<le> maxIterations"
  shows "\<exists>st'. tool_loop engine kb env sys st = Returned st' \<and> iterations st' = maxIterations"
  using ok le
proof (induction st rule: tool_loop_induct [where kb = kb and env = env and engine = engine and sys = sys])
  case (stop st)
  then show ?case by (simp add: tool_loop_stop dispatch_ok_def)
next
  case (throw_tool st e)
  then show ?case using run_tools_ok [of kb env "response st"] by simp
next
  case (throw_engine st rs e)
  then show ?case using always [of "create_params sys (next_messages st rs)"] by simp
next
  case (step st rs r)
  have "dispatch_ok kb env r"
    using always [of "create_params sys (next_messages st rs)"] step.hyps by simp
  then have "\<exists>st'. tool_loop engine kb env sys
      \<lparr> response = r, iterations = iterations st + 1, messages = next_messages st rs \<rparr> = Returned st' \<and>
      iterations st' = maxIterations"
    using step.IH step.hyps by simp
  then show ?case using step.hyps by (simp add: tool_loop_step)
qed

lemma POST_unfold:
  assumes "accepted env body"
  shows "POST engine kb env SYSTEM_PROMPT (Inr body) =
    (case engine (first_request SYSTEM_PROMPT kb body) of
       Inl e \<Rightarrow> chat_failed e
     | Inr r \<Rightarrow>
         (case tool_loop engine kb env (req_system (first_request SYSTEM_PROMPT kb body))
                 \<lparr> response = r, iterations = 0,
                   messages = req_messages (first_request SYSTEM_PROMPT kb body) \<rparr> of
            Thrown e st \<Rightarrow> chat_failed e
          | Returned st \<Rightarrow> final_response (response st)))"
  using assms
  by (simp add: POST_def accepted_def first_request_def Let_def create_params_def
      split: prod.splits sum.splits)

lemma prepare_messages_eq:
  "prepare_messages message conversationHistory =
     (conversationHistory,
      map history_param (drop (length conversationHistory - 10) conversationHistory) @
      [\<lparr> param_role = user, param_content = StringContent message \<rparr>])"
proof -
  have s: "slice_from conversationHistory (- 10) =
           drop (length conversationHistory - 10) conversationHistory"
    using slice_from_drop [of 10 conversationHistory] by simp
  have f: "foldl (\<lambda>messages msg. messages @ [history_param msg]) init xs = init @ map history_param xs"
    for init xs by (rule foldl_push)
  show ?thesis
    unfolding prepare_messages_def Let_def s
    using f [of "[]"] by (simp add: history_param_def)
qed

text \<open>
  C10. The statements that fill \<open>messages\<close> leave the caller's history as it is and give
  the last 10 turns of it (all of them when there are fewer), each as its role and
  content, followed by the new user message: at most 11 messages. These are the
  messages of the first request: when the engine throws on it the handler fails with
  that exception, and when the engine answers it without asking for tools the handler
  returns that answer.
\<close>

theorem initial_request_history:
  "prepare_messages message conversationHistory =
     (conversationHistory,
      map history_param (drop (length conversationHistory - 10) conversationHistory) @
      [\<lparr> param_role = user, param_content = StringContent message \<rparr>]) \<and>
   length (snd (prepare_messages message conversationHistory)) =
     min 10 (length conversationHistory) + 1 \<and>
   req_messages (first_request SYSTEM_PROMPT kb body) =
     snd (prepare_messages (undefined_or_str (body_message body) [])
            (undefined_or_array (body_conversationHistory body) [])) \<and>
   (accepted env body \<longrightarrow>
      (\<forall>e. engine (first_request SYSTEM_PROMPT kb body) = Inl e \<longrightarrow>
           POST engine kb env SYSTEM_PROMPT (Inr body) = chat_failed e) \<and>
      (\<forall>r. engine (first_request SYSTEM_PROMPT kb body) = Inr r \<longrightarrow>
           stop_reason r \<noteq> Some ''tool_use'' \<longrightarrow>
           POST engine kb env SYSTEM_PROMPT (Inr body) = final_response r))"
proof (intro conjI impI allI)
  show "prepare_messages message conversationHistory =
     (conversationHistory,
      map history_param (drop (length conversationHistory - 10) conversationHistory) @
      [\<lparr> param_role = user, param_content = StringContent message \<rparr>])"
    by (rule prepare_messages_eq)
  show "length (snd (prepare_messages message conversationHistory)) =
     min 10 (length conversationHistory) + 1"
    unfolding prepare_messages_eq by (simp add: min_def)
  show "req_messages (first_request SYSTEM_PROMPT kb body) =
     snd (prepare_messages (undefined_or_str (body_message body) [])
            (undefined_or_array (body_conversationHistory body) []))"
    by (simp add: first_request_def Let_def create_params_def)
next
  fix e assume "accepted env body" "engine (first_request SYSTEM_PROMPT kb body) = Inl e"
  then show "POST engine kb env SYSTEM_PROMPT (Inr body) = chat_failed e"
    by (simp add: POST_unfold)
next
  fix r assume a: "accepted env body" and r: "engine (first_request SYSTEM_PROMPT kb body) = Inr r"
    and s: "stop_reason r \<noteq> Some ''tool_use''"
  have "tool_loop engine kb env (req_system (first_request SYSTEM_PROMPT kb body))
                 \<lparr> response = r, iterations = 0,
                   messages = req_messages (first_request SYSTEM_PROMPT kb body) \<rparr>
        = Returned \<lparr> response = r, iterations = 0,
                   messages = req_messages (first_request SYSTEM_PROMPT kb body) \<rparr>"
    by (rule tool_loop_stop) (simp add: s)
  then show "POST engine kb env SYSTEM_PROMPT (Inr body) = final_response r"
    using a r by (simp add: POST_unfold)
qed

lemma final_response_json:
  "status (final_response resp) = 200 \<and>
   json (final_response resp) =
     ChatJSON (join NL (text_blocks (content resp))) (extract_bookingUrl (content resp))
       (map (\<lambda>(i, n, inp). n) (tool_use_blocks (content resp)))"
  by (simp add: final_response_def Let_def)

text \<open>
  C4. From the first response on, the loop runs at most 5 dispatch rounds, whatever
  the engine answers and whether or not the loop ends in an exception. When it
  returns, it has appended two messages per round, and it has run 5 rounds or the
  last response does not ask for tools. When every response asks for tools and no
  call throws, the loop returns after exactly 5 rounds, and the handler answers with
  status 200 and the text blocks of the last response, joined by line feeds (the
  empty text when it has none). Whenever the loop returns, the handler answers with
  the response the loop ended on.
\<close>

theorem dispatch_rounds_capped:
  "iterations (final_state (tool_loop engine kb env sys
       \<lparr> response = r0, iterations = 0, messages = m0 \<rparr>)) \<le> 5 \<and>
   (\<forall>st. tool_loop engine kb env sys \<lparr> response = r0, iterations = 0, messages = m0 \<rparr> =
           Returned st \<longrightarrow>
         length (messages st) = length m0 + 2 * iterations st \<and>
         (iterations st = 5 \<or> stop_reason (response st) \<noteq> Some ''tool_use'')) \<and>
   (accepted env body \<and> (\<forall>req. \<exists>m. engine req = Inr m \<and> dispatch_ok kb env m) \<longrightarrow>
      (\<exists>r st.
         engine (first_request SYSTEM_PROMPT kb body) = Inr r \<and>
         tool_loop engine kb env (req_system (first_request SYSTEM_PROMPT kb body))
           \<lparr> response = r, iterations = 0,
             messages = req_messages (first_request SYSTEM_PROMPT kb body) \<rparr> = Returned st \<and>
         iterations st = 5 \<and>
         engine (create_params (req_system (first_request SYSTEM_PROMPT kb body)) (messages st)) =
           Inr (response st) \<and>
         POST engine kb env SYSTEM_PROMPT (Inr body) = final_response (response st) \<and>
         status (final_response (response st)) = 200 \<and>
         json (final_response (response st)) =
           ChatJSON (join NL (text_blocks (content (response st))))
             (extract_bookingUrl (content (response st)))
             (map (\<lambda>(i, n, inp). n) (tool_use_blocks (content (response st)))))) \<and>
   (\<forall>r st. accepted env body \<and>
       engine (first_request SYSTEM_PROMPT kb body) = Inr r \<and>
       tool_loop engine kb env (req_system (first_request SYSTEM_PROMPT kb body))
         \<lparr> response = r, iterations = 0,
           messages = req_messages (first_request SYSTEM_PROMPT kb body) \<rparr> = Returned st \<longrightarrow>
       POST engine kb env SYSTEM_PROMPT (Inr body) = final_response (response st))"
proof (intro conjI allI impI)
  let ?init = "\<lparr> response = r0, iterations = 0, messages = m0 \<rparr>"
  show "iterations (final_state (tool_loop engine kb env sys ?init)) \<le> 5"
    using tool_loop_cap [of engine kb env sys ?init] by (simp add: maxIterations_def)
  fix st assume "tool_loop engine kb env sys ?init = Returned st"
  note r = tool_loop_returned [OF this]
  from r show "length (messages st) = length m0 + 2 * iterations st" by simp
  from r show "iterations st = 5 \<or> stop_reason (response st) \<noteq> Some ''tool_use''"
    using tool_loop_cap [of engine kb env sys ?init]
      \<open>tool_loop engine kb env sys ?init = Returned st\<close>
    by (auto simp: maxIterations_def)
next
  assume h: "accepted env body \<and> (\<forall>req. \<exists>m. engine req = Inr m \<and> dispatch_ok kb env m)"
  let ?req = "first_request SYSTEM_PROMPT kb body"
  from h obtain r where r: "engine ?req = Inr r" and ok: "dispatch_ok kb env r" by blast
  let ?init = "\<lparr> response = r, iterations = 0, messages = req_messages ?req \<rparr>"
  have "\<exists>st. tool_loop engine kb env (req_system ?req) ?init = Returned st \<and>
             iterations st = maxIterations"
    by (rule tool_loop_all_rounds) (use h ok in simp_all)
  then obtain st where st: "tool_loop engine kb env (req_system ?req) ?init = Returned st"
    and it: "iterations st = 5" by (auto simp: maxIterations_def)
  have e: "engine (create_params (req_system ?req) (messages st)) = Inr (response st)"
    using tool_loop_returned [OF st] it by simp
  have p: "POST engine kb env SYSTEM_PROMPT (Inr body) = final_response (response st)"
    using h r st by (simp add: POST_unfold)
  show "\<exists>r st.
         engine ?req = Inr r \<and>
         tool_loop engine kb env (req_system ?req)
           \<lparr> response = r, iterations = 0, messages = req_messages ?req \<rparr> = Returned st \<and>
         iterations st = 5 \<and>
         engine (create_params (req_system ?req) (messages st)) = Inr (response st) \<and>
         POST engine kb env SYSTEM_PROMPT (Inr body) = final_response (response st) \<and>
         status (final_response (response st)) = 200 \<and>
         json (final_response (response st)) =
           ChatJSON (join NL (text_blocks (content (response st))))
             (extract_bookingUrl (content (response st)))
             (map (\<lambda>(i, n, inp). n) (tool_use_blocks (content (response st))))"
    using r st it e p final_response_json [of "response st"] by blast
next
  fix r st
  assume "accepted env body \<and>
       engine (first_request SYSTEM_PROMPT kb body) = Inr r \<and>
       tool_loop engine kb env (req_system (first_request SYSTEM_PROMPT kb body))
         \<lparr> response = r, iterations = 0,
           messages = req_messages (first_request SYSTEM_PROMPT kb body) \<rparr> = Returned st"
  then show "POST engine kb env SYSTEM_PROMPT (Inr body) = final_response (response st)"
    by (simp add: POST_unfold)
qed

lemma always_booking_ok: "\<exists>m. always_booking req = Inr m \<and> dispatch_ok demo_kb demo_env m"
  by (simp add: always_booking_def dispatch_ok_def tool_use_blocks_def List.map_filter_def
      executeTool_def)

lemma demo_accepted: "accepted demo_env demo_body"
  by (simp add: accepted_def demo_env_def demo_body_def undefined_or_str_def)

lemma demo_post:
  "POST always_booking demo_kb demo_env ''You are an assistant.'' (Inr demo_body) =
     \<lparr> status = 200, json = ChatJSON ''Let me check.'' None [''book_consultation''] \<rparr>"
  by code_simp

text \<open>The handler against an engine that asks for the booking tool on every call.\<close>

theorem dispatch_rounds_capped_witness:
  "accepted demo_env demo_body \<and>
   (\<forall>req. \<exists>m. always_booking req = Inr m \<and> dispatch_ok demo_kb demo_env m) \<and>
   (\<exists>st :: LoopState. iterations st = 5 \<and>
         POST always_booking demo_kb demo_env ''You are an assistant.'' (Inr demo_body) =
           final_response (response st)) \<and>
   POST always_booking demo_kb demo_env ''You are an assistant.'' (Inr demo_body) =
     \<lparr> status = 200, json = ChatJSON ''Let me check.'' None [''book_consultation''] \<rparr>"
proof -
  have h: "accepted demo_env demo_body \<and>
     (\<forall>req. \<exists>m. always_booking req = Inr m \<and> dispatch_ok demo_kb demo_env m)"
    using demo_accepted always_booking_ok by blast
  have "\<exists>st :: LoopState. iterations st = 5 \<and>
         POST always_booking demo_kb demo_env ''You are an assistant.'' (Inr demo_body) =
           final_response (response st)"
  proof -
    note t = dispatch_rounds_capped [of always_booking demo_kb demo_env "[]"
        "\<lparr> content = [], stop_reason = None \<rparr>" "[]" demo_body "''You are an assistant.''"]
    from t [THEN conjunct2, THEN conjunct2, THEN conjunct1, THEN mp, OF h]
    obtain r and st :: LoopState where "iterations st = 5"
      and "POST always_booking demo_kb demo_env ''You are an assistant.'' (Inr demo_body) =
           final_response (response st)"
      by blast
    then show ?thesis by blast
  qed
  then show ?thesis using h demo_post by blast
qed

text \<open>A history of twelve turns: the first request holds turns 3 to 12 and the new message.\<close>

theorem initial_request_history_witness:
  "accepted demo_env demo_body \<and>
   length demo_history = 12 \<and>
   length (req_messages (first_request ''You are an assistant.'' demo_kb demo_body)) = 11 \<and>
   map param_content (req_messages (first_request ''You are an assistant.'' demo_kb demo_body)) =
     map StringContent [''3'', ''4'', ''5'', ''6'', ''7'', ''8'', ''9'', ''10'', ''11'', ''12'',
                        ''claim bonus'']"
proof -
  note t = initial_request_history [of "''claim bonus''" demo_history
      "''You are an assistant.''" demo_kb demo_body demo_env always_booking]
  have l: "length demo_history = 12" by (simp add: demo_history_def)
  have b: "undefined_or_str (body_message demo_body) [] = ''claim bonus''"
    "undefined_or_array (body_conversationHistory demo_body) [] = demo_history"
    by (simp_all add: demo_body_def undefined_or_str_def undefined_or_array_def)
  from t have m: "req_messages (first_request ''You are an assistant.'' demo_kb demo_body) =
      snd (prepare_messages ''claim bonus'' demo_history)"
    unfolding b by blast
  from t have n: "length (snd (prepare_messages ''claim bonus'' demo_history)) =
      min 10 (length demo_history) + 1"
    by blast
  have c: "map param_content (snd (prepare_messages ''claim bonus'' demo_history)) =
     map StringContent [''3'', ''4'', ''5'', ''6'', ''7'', ''8'', ''9'', ''10'', ''11'', ''12'',
                        ''claim bonus'']"
    by code_simp
  show ?thesis using demo_accepted l c n unfolding m by simp
qed

end
